theory Spec2Isabelle
  imports Main "HOL-Library.Word" "HOL-Library.Signed_Division"
begin

unbundle bit_operations_syntax

section \<open>Machine types and panics\<close>

text \<open>
  The program is Go, modelled as it runs on a 64-bit platform: \<open>int\<close> and \<open>int64\<close>
  are 64-bit two's-complement words, \<open>int32\<close> and \<open>uint32\<close> are the same 32 bits read
  signed (\<open>sint\<close>) or unsigned (\<open>unat\<close>), and arithmetic wraps around. A Go \<open>string\<close> is a
  sequence of bytes, here a \<open>string\<close> (one \<open>char\<close> per byte).
\<close>

type_synonym byte = "8 word"
type_synonym int32 = "32 word"
type_synonym go_int = "64 word"

text \<open>The errors of package \<open>os\<close> and \<open>io\<close> that the program can meet.\<close>

datatype os_error =
    ErrNotExist | ErrExist | ErrPermission | ErrInvalid | ErrFileTooLarge | ErrStale | EOF

text \<open>
  The program reports every failure by a panic: the run-time panics of Go (a slice
  expression or an index out of range, \<open>make\<close> with a length out of range, an integer division
  by zero, a nil pointer dereference), \<open>panic(err)\<close> with an error of the operating system,
  and \<open>panic("...")\<close> with a message.
\<close>

datatype panic =
    SliceBoundsOutOfRange
  | IndexOutOfRange
  | MakesliceLenOutOfRange
  | IntegerDivideByZero
  | NilPointerDereference
  | PanicError os_error
  | PanicMessage string

definition int32size :: int32 where
  "int32size = 4"

section \<open>Byte slices\<close>

text \<open>
  A Go slice \<open>[]byte\<close> is a window on a backing array with a length and a capacity.
  \<open>elems\<close> are the elements at indices \<open>[0, len)\<close>; \<open>spare\<close> are the elements of the
  backing array at indices \<open>[len, cap)\<close>, which an index expression cannot reach but a
  slice expression \<open>s[lo:hi]\<close> can (its upper bound is the capacity).
\<close>

record byteslice =
  elems :: "byte list"
  spare :: "byte list"

definition cap :: "byteslice \<Rightarrow> nat" where
  "cap s = length (elems s) + length (spare s)"

text \<open>
  \<open>make([]byte, n)\<close>: \<open>n\<close> zero bytes, capacity \<open>n\<close>. The run time panics with
  ``makeslice: len out of range'' when \<open>n\<close> is negative or above its allocation limit
  \<open>maxAlloc\<close>, which is \<open>2 ^ 48\<close> bytes on a 64-bit Linux platform. Within that limit the
  machine is taken to have the memory.
\<close>

definition maxAlloc :: nat where
  "maxAlloc = 2 ^ 48"

definition make_bytes :: "int \<Rightarrow> panic + byteslice" where
  "make_bytes n =
     (if n < 0 \<or> int maxAlloc < n then Inl MakesliceLenOutOfRange
      else Inr \<lparr>elems = replicate (nat n) 0, spare = []\<rparr>)"

text \<open>
  The built-in \<open>copy(dst, src)\<close> copies \<open>min(len(dst), len(src))\<close> elements; the result is
  the new contents of \<open>dst\<close>.
\<close>

definition copy_bytes :: "byte list \<Rightarrow> byte list \<Rightarrow> byte list" where
  "copy_bytes dst src =
     (let k = min (length dst) (length src) in take k src @ drop k dst)"

text \<open>\<open>put_at xs i ys\<close>: the array \<open>xs\<close> after the window starting at index \<open>i\<close> has received \<open>ys\<close>.\<close>

definition put_at :: "byte list \<Rightarrow> nat \<Rightarrow> byte list \<Rightarrow> byte list" where
  "put_at xs i ys = take i xs @ ys @ drop (i + length ys) xs"

subsection \<open>encoding/binary, big endian\<close>

text \<open>
  \<open>binary.BigEndian.PutUint32(b, v)\<close> checks \<open>b[3]\<close> first and then stores
  \<open>byte(v >> 24), byte(v >> 16), byte(v >> 8), byte(v)\<close> in \<open>b[0..3]\<close>;
  \<open>binary.BigEndian.Uint32(b)\<close> checks \<open>b[3]\<close> and returns
  \<open>uint32(b[3]) | uint32(b[2])<<8 | uint32(b[1])<<16 | uint32(b[0])<<24\<close>.
  The two functions below are the bytes stored and the value loaded; the check of \<open>b[3]\<close>
  is in \<open>setInt\<close> and \<open>getInt\<close>.
\<close>

definition PutUint32 :: "int32 \<Rightarrow> byte list" where
  "PutUint32 v =
     [ucast (drop_bit 24 v), ucast (drop_bit 16 v), ucast (drop_bit 8 v), ucast v]"

definition Uint32 :: "byte list \<Rightarrow> int32" where
  "Uint32 b =
     ucast (b ! 3) OR push_bit 8 (ucast (b ! 2)) OR push_bit 16 (ucast (b ! 1))
       OR push_bit 24 (ucast (b ! 0))"

definition byteSliceToInt32 :: "byte list \<Rightarrow> int32" where
  "byteSliceToInt32 bs = Uint32 bs"

definition int32ToByteSlice :: "int32 \<Rightarrow> byte list" where
  "int32ToByteSlice n = PutUint32 n"

section \<open>BlockID and Page\<close>

record BlockID =
  filename :: string
  blknum :: go_int

definition newBlockID :: "string \<Rightarrow> go_int \<Rightarrow> BlockID" where
  "newBlockID name num = \<lparr>filename = name, blknum = num\<rparr>"

record Page =
  buf :: byteslice

definition newPage :: "go_int \<Rightarrow> panic + Page" where
  "newPage blocksize =
     (case make_bytes (sint blocksize) of
        Inl e \<Rightarrow> Inl e
      | Inr b \<Rightarrow> Inr \<lparr>buf = b\<rparr>)"


text \<open>
  The accessors have a value receiver, but the \<open>Page\<close> value holds a slice, so a store
  through it is seen by the caller. A setter returns the page after the call together
  with the panic that ended the call, if any (\<open>None\<close>: it returned). A getter changes
  nothing and returns its value or the panic.

  \<open>setInt\<close>: the slice expression \<open>p.buf[offset:]\<close> panics unless
  \<open>0 \<le> offset \<le> len(p.buf)\<close>; \<open>PutUint32\<close> panics on \<open>b[3]\<close> when fewer than four bytes
  are left, before it stores anything.
\<close>

definition setInt :: "Page \<Rightarrow> int32 \<Rightarrow> int32 \<Rightarrow> panic option \<times> Page" where
  "setInt p offset n =
     (if \<not> (0 \<le> sint offset \<and> sint offset \<le> int (length (elems (buf p))))
      then (Some SliceBoundsOutOfRange, p)
      else if length (drop (nat (sint offset)) (elems (buf p))) \<le> 3
      then (Some IndexOutOfRange, p)
      else (None, p\<lparr>buf := (buf p)\<lparr>elems :=
              put_at (elems (buf p)) (nat (sint offset)) (PutUint32 n)\<rparr>\<rparr>))"

definition getInt :: "Page \<Rightarrow> int32 \<Rightarrow> panic + int32" where
  "getInt p offset =
     (if \<not> (0 \<le> sint offset \<and> sint offset \<le> int (length (elems (buf p))))
      then Inl SliceBoundsOutOfRange
      else let b = drop (nat (sint offset)) (elems (buf p)) in
        if length b \<le> 3 then Inl IndexOutOfRange else Inr (Uint32 b))"

text \<open>
  \<open>slice_ok s lo hi\<close>: the slice expression \<open>s[lo:hi]\<close> does not panic, that is
  \<open>0 \<le> lo \<le> hi \<le> cap(s)\<close>.
\<close>

definition slice_ok :: "byteslice \<Rightarrow> int \<Rightarrow> int \<Rightarrow> bool" where
  "slice_ok s lo hi = (0 \<le> lo \<and> lo \<le> hi \<and> hi \<le> int (cap s))"

text \<open>
  \<open>setBytes\<close>: \<open>n := int32(len(bs))\<close> keeps the low 32 bits of the length; \<open>setInt\<close>
  stores it; \<open>start\<close> and \<open>end\<close> are computed in \<open>int32\<close>; \<open>copy\<close> writes into
  the window \<open>p.buf[start:end]\<close> of the backing array.
\<close>

definition setBytes :: "Page \<Rightarrow> int32 \<Rightarrow> byte list \<Rightarrow> panic option \<times> Page" where
  "setBytes p offset bs =
     (let n = (word_of_nat (length bs) :: int32) in
      case setInt p offset n of
        (Some e, p1) \<Rightarrow> (Some e, p1)
      | (None, p1) \<Rightarrow>
          (let start = offset + int32size;
               end = start + n;
               len = length (elems (buf p1));
               arr = elems (buf p1) @ spare (buf p1)
           in if \<not> slice_ok (buf p1) (sint start) (sint end)
              then (Some SliceBoundsOutOfRange, p1)
              else
                (let lo = nat (sint start);
                     hi = nat (sint end);
                     arr' = put_at arr lo (copy_bytes (take (hi - lo) (drop lo arr)) bs)
                 in (None, p1\<lparr>buf := \<lparr>elems = take len arr', spare = drop len arr'\<rparr>\<rparr>))))"

definition maxLength :: "string \<Rightarrow> int32" where
  "maxLength s = int32size + word_of_nat (length s)"

text \<open>
  \<open>getBytes\<close>: \<open>make([]byte, n)\<close> panics on a negative \<open>n\<close>; then the slice expression
  \<open>p.buf[start:end]\<close> is checked, and \<open>copy\<close> fills the fresh slice, which is returned.
\<close>

definition getBytes :: "Page \<Rightarrow> int32 \<Rightarrow> panic + byte list" where
  "getBytes p offset =
     (case getInt p offset of
        Inl e \<Rightarrow> Inl e
      | Inr n \<Rightarrow>
          (let start = offset + int32size;
               end = start + n
           in case make_bytes (sint n) of
                Inl e \<Rightarrow> Inl e
              | Inr bs \<Rightarrow>
                  if \<not> slice_ok (buf p) (sint start) (sint end)
                  then Inl SliceBoundsOutOfRange
                  else
                    (let lo = nat (sint start);
                         hi = nat (sint end);
                         arr = elems (buf p) @ spare (buf p)
                     in Inr (copy_bytes (elems bs) (take (hi - lo) (drop lo arr))))))"

text \<open>The conversions \<open>[]byte(s)\<close> and \<open>string(b)\<close> copy the bytes as they are.\<close>

definition bytes_of_string :: "string \<Rightarrow> byte list" where
  "bytes_of_string s = map (\<lambda>c. word_of_nat (of_char c)) s"

definition string_of_bytes :: "byte list \<Rightarrow> string" where
  "string_of_bytes b = map (\<lambda>w. char_of (unat w)) b"

definition setString :: "Page \<Rightarrow> int32 \<Rightarrow> string \<Rightarrow> panic option \<times> Page" where
  "setString p offset s = setBytes p offset (bytes_of_string s)"

definition getString :: "Page \<Rightarrow> int32 \<Rightarrow> panic + string" where
  "getString p offset =
     (case getBytes p offset of
        Inl e \<Rightarrow> Inl e
      | Inr b \<Rightarrow> Inr (string_of_bytes b))"

section \<open>The operating system\<close>

text \<open>
  The file system as the program sees it. \<open>disk\<close> maps the path of every regular file
  to its contents. \<open>create_error\<close> gives, for a path, the error \<open>os.Create\<close> reports
  there (a directory is in the way, the parent is missing, permission is denied), if any.
  \<open>path_Join\<close> is the library function \<open>path.Join\<close> applied to a directory name and a
  file name; nothing here depends on how it cleans its result.

  \<open>max_file_size\<close> is the size up to which the file system lets a file grow: its
  largest file size (about \<open>2 ^ 44\<close> bytes on ext4), or less where space runs out
  earlier. Sizes and offsets are \<open>int64\<close>, so the limit that counts, \<open>file_limit\<close>, is
  never above \<open>2 ^ 63 - 1\<close>.

  An open file (\<open>*os.File\<close>) is the path it was opened with and its file offset. An
  open file whose path is not on the disk is stale and every call on it reports
  \<open>ErrStale\<close>. Apart from the errors written out below, \<open>Stat\<close>, \<open>Read\<close> and \<open>Write\<close>
  report no error of the device.
\<close>

type_synonym path = string

record os_file =
  fname :: path
  fpos :: nat

record world =
  disk :: "path \<rightharpoonup> byte list"
  create_error :: "path \<rightharpoonup> os_error"
  path_Join :: "path \<Rightarrow> path \<Rightarrow> path"
  max_file_size :: nat

definition file_limit :: "world \<Rightarrow> nat" where
  "file_limit w = min (max_file_size w) (2 ^ 63 - 1)"

text \<open>\<open>os.Create(p)\<close> opens with \<open>O_RDWR|O_CREATE|O_TRUNC\<close>: the file exists and is empty afterwards.\<close>

definition os_Create :: "world \<Rightarrow> path \<Rightarrow> os_error + (os_file \<times> world)" where
  "os_Create w p =
     (case create_error w p of
        Some err \<Rightarrow> Inl err
      | None \<Rightarrow> Inr (\<lparr>fname = p, fpos = 0\<rparr>, w\<lparr>disk := (disk w)(p \<mapsto> [])\<rparr>))"

text \<open>
  \<open>f.Seek(offset, 0)\<close>: an offset that is negative or beyond the limit of the file
  system is refused (\<open>EINVAL\<close>) and the file offset stays where it was.
\<close>

definition os_Seek :: "world \<Rightarrow> os_file \<Rightarrow> go_int \<Rightarrow> os_error option \<times> os_file" where
  "os_Seek w f off =
     (if off <s 0 \<or> file_limit w < nat (sint off) then (Some ErrInvalid, f)
      else (None, f\<lparr>fpos := nat (sint off)\<rparr>))"

text \<open>
  \<open>f.Read(b)\<close> with \<open>len(b) = n\<close>: the bytes read and the error. One call transfers at
  most \<open>maxRW\<close> bytes (1 GiB, the limit of package \<open>internal/poll\<close>) and at most the
  bytes that the file holds from the file offset on. At or after the end of the file it
  reads nothing and reports \<open>EOF\<close>, unless \<open>n = 0\<close>.
\<close>

definition maxRW :: nat where
  "maxRW = 2 ^ 30"

definition os_Read :: "world \<Rightarrow> os_file \<Rightarrow> nat \<Rightarrow> (byte list \<times> os_error option) \<times> os_file" where
  "os_Read w f n =
     (case disk w (fname f) of
        None \<Rightarrow> (([], Some ErrStale), f)
      | Some c \<Rightarrow>
          if n = 0 then (([], None), f)
          else if length c \<le> fpos f then (([], Some EOF), f)
          else (let d = take (min n maxRW) (drop (fpos f) c)
                in ((d, None), f\<lparr>fpos := fpos f + length d\<rparr>)))"

text \<open>
  The contents of a file after \<open>b\<close> is written at offset \<open>pos\<close>: a gap between the old
  end and \<open>pos\<close> reads as zero bytes; an empty write changes nothing. \<open>f.Write(b)\<close>
  writes all of \<open>b\<close> (in pieces of at most \<open>maxRW\<close> bytes), or reports
  \<open>ErrFileTooLarge\<close> when the file would grow beyond the limit of the file system.
\<close>

definition write_at :: "byte list \<Rightarrow> nat \<Rightarrow> byte list \<Rightarrow> byte list" where
  "write_at c pos b =
     (if b = [] then c
      else take pos c @ replicate (pos - length c) 0 @ b @ drop (pos + length b) c)"

definition os_Write ::
  "world \<Rightarrow> os_file \<Rightarrow> byte list \<Rightarrow> (nat \<times> os_error option) \<times> os_file \<times> world" where
  "os_Write w f b =
     (case disk w (fname f) of
        None \<Rightarrow> ((0, Some ErrStale), f, w)
      | Some c \<Rightarrow>
          if b \<noteq> [] \<and> file_limit w < fpos f + length b
          then ((0, Some ErrFileTooLarge), f, w)
          else ((length b, None), f\<lparr>fpos := fpos f + length b\<rparr>,
                w\<lparr>disk := (disk w)(fname f \<mapsto> write_at c (fpos f) b)\<rparr>))"

text \<open>\<open>f.Stat()\<close>, of which the program uses \<open>Size()\<close> only.\<close>

definition os_Stat :: "world \<Rightarrow> os_file \<Rightarrow> os_error + go_int" where
  "os_Stat w f =
     (case disk w (fname f) of
        None \<Rightarrow> Inl ErrStale
      | Some c \<Rightarrow> Inr (word_of_nat (length c)))"

text \<open>
  The three calls \<open>newFileManager\<close> makes on the directory, each with the error it
  reports (\<open>None\<close>: it succeeds): the first \<open>os.Open(dir)\<close>, \<open>os.Mkdir(dir, os.ModePerm)\<close>
  and the second \<open>os.Open(dir)\<close>.
\<close>

record dir_calls =
  open_dir :: "os_error option"
  mkdir_dir :: "os_error option"
  reopen_dir :: "os_error option"

section \<open>FileManager\<close>

text \<open>
  \<open>directory\<close> is a pointer: \<open>None\<close> is nil. \<open>files\<close> maps a file name to its open
  file; the offset of that file changes with every seek, read and write made through
  the manager, so an operation stores the file back after using it.
\<close>

record FileManager =
  directory :: "os_file option"
  blocksize :: go_int
  files :: "string \<rightharpoonup> os_file"

definition newFileManager :: "dir_calls \<Rightarrow> path \<Rightarrow> go_int \<Rightarrow> panic + FileManager" where
  "newFileManager os dir bsize =
     (case open_dir os of
        None \<Rightarrow>
          Inr \<lparr>directory = Some \<lparr>fname = dir, fpos = 0\<rparr>, blocksize = bsize, files = Map.empty\<rparr>
      | Some err \<Rightarrow>
          if err = ErrNotExist then
            (case (case mkdir_dir os of
                     Some err2 \<Rightarrow> if err2 \<noteq> ErrExist then Some (PanicError err2) else None
                   | None \<Rightarrow> None) of
               Some pn \<Rightarrow> Inl pn
             | None \<Rightarrow>
                 Inr \<lparr>directory =
                        (case reopen_dir os of
                           None \<Rightarrow> Some \<lparr>fname = dir, fpos = 0\<rparr>
                         | Some _ \<Rightarrow> None),
                      blocksize = bsize, files = Map.empty\<rparr>)
          else Inl (PanicError err))"

text \<open>
  A panic of the file manager ends the program (nothing recovers from it), so an
  operation returns either the panic or its result with the world and the manager
  after the call.
\<close>

definition getFile ::
  "world \<Rightarrow> FileManager \<Rightarrow> string \<Rightarrow> panic + (os_file \<times> world \<times> FileManager)" where
  "getFile w fm name =
     (case files fm name of
        Some f \<Rightarrow> Inr (f, w, fm)
      | None \<Rightarrow>
          (case directory fm of
             None \<Rightarrow> Inl NilPointerDereference
           | Some d \<Rightarrow>
               (case os_Create w (path_Join w (fname d) name) of
                  Inl err \<Rightarrow> Inl (PanicError err)
                | Inr (f, w') \<Rightarrow> Inr (f, w', fm\<lparr>files := (files fm)(name \<mapsto> f)\<rparr>))))"

definition store_file :: "FileManager \<Rightarrow> string \<Rightarrow> os_file \<Rightarrow> FileManager" where
  "store_file fm name f = fm\<lparr>files := (files fm)(name \<mapsto> f)\<rparr>"

text \<open>
  \<open>read\<close> fills \<open>p.buf\<close> in place; the result holds the page after the call. The seek
  offset is \<open>int64(blk.blknum) * int64(fm.blocksize)\<close>, and the result of \<open>Seek\<close> is not
  looked at.
\<close>

definition read_fm ::
  "world \<Rightarrow> FileManager \<Rightarrow> BlockID \<Rightarrow> Page \<Rightarrow> panic + (Page \<times> world \<times> FileManager)" where
  "read_fm w fm blk p =
     (case getFile w fm (filename blk) of
        Inl e \<Rightarrow> Inl e
      | Inr (f, w1, fm1) \<Rightarrow>
          (let f1 = snd (os_Seek w1 f (blknum blk * blocksize fm1));
               ((d, err), f2) = os_Read w1 f1 (length (elems (buf p)));
               bytesRead = length d;
               p' = p\<lparr>buf := (buf p)\<lparr>elems := copy_bytes (elems (buf p)) d\<rparr>\<rparr>
           in case err of
                Some e \<Rightarrow> Inl (PanicError e)
              | None \<Rightarrow>
                  if bytesRead \<noteq> length (elems (buf p))
                  then Inl (PanicMessage ''mismatch in bytes read?'')
                  else Inr (p', w1, store_file fm1 (filename blk) f2)))"

text \<open>
  \<open>write\<close>: the seek offset is \<open>int64(blk.blknum * fm.blocksize)\<close>, on a 64-bit platform
  the same word as the offset in \<open>read\<close>.
\<close>

definition write_fm ::
  "world \<Rightarrow> FileManager \<Rightarrow> BlockID \<Rightarrow> Page \<Rightarrow> panic + (world \<times> FileManager)" where
  "write_fm w fm blk p =
     (case getFile w fm (filename blk) of
        Inl e \<Rightarrow> Inl e
      | Inr (f, w1, fm1) \<Rightarrow>
          (let f1 = snd (os_Seek w1 f (blknum blk * blocksize fm1));
               ((bytesWritten, err), f2, w2) = os_Write w1 f1 (elems (buf p))
           in case err of
                Some e \<Rightarrow> Inl (PanicError e)
              | None \<Rightarrow>
                  if bytesWritten \<noteq> length (elems (buf p))
                  then Inl (PanicMessage ''mismatch in bytes written'')
                  else Inr (w2, store_file fm1 (filename blk) f2)))"

text \<open>
  \<open>length\<close>: \<open>int(stat.Size()) / fm.blocksize\<close> is Go's integer division, which
  truncates towards zero and panics on a zero divisor.
\<close>

definition length_fm ::
  "world \<Rightarrow> FileManager \<Rightarrow> string \<Rightarrow> panic + (go_int \<times> world \<times> FileManager)" where
  "length_fm w fm name =
     (case getFile w fm name of
        Inl e \<Rightarrow> Inl e
      | Inr (f, w1, fm1) \<Rightarrow>
          (case os_Stat w1 f of
             Inl err \<Rightarrow> Inl (PanicError err)
           | Inr sz \<Rightarrow>
               if blocksize fm1 = 0 then Inl IntegerDivideByZero
               else Inr (word_of_int (sint sz sdiv sint (blocksize fm1)), w1, fm1)))"

definition append_fm ::
  "world \<Rightarrow> FileManager \<Rightarrow> string \<Rightarrow> panic + (BlockID \<times> world \<times> FileManager)" where
  "append_fm w fm name =
     (case length_fm w fm name of
        Inl e \<Rightarrow> Inl e
      | Inr (newblknum, w1, fm1) \<Rightarrow>
          (let blk = newBlockID name newblknum in
           case make_bytes (sint (blocksize fm1)) of
             Inl e \<Rightarrow> Inl e
           | Inr b \<Rightarrow>
               (case getFile w1 fm1 (filename blk) of
                  Inl e \<Rightarrow> Inl e
                | Inr (f, w2, fm2) \<Rightarrow>
                    (let f1 = snd (os_Seek w2 f (blknum blk * blocksize fm2));
                         ((bytesWritten, err), f2, w3) = os_Write w2 f1 (elems b)
                     in case err of
                          Some e \<Rightarrow> Inl (PanicError e)
                        | None \<Rightarrow>
                            if bytesWritten \<noteq> length (elems b)
                            then Inl (PanicMessage ''mismatch in bytes written'')
                            else Inr (blk, w3, store_file fm2 (filename blk) f2)))))"

section \<open>The self-test\<close>

text \<open>
  \<open>testFileManager\<close> as \<open>main\<close> runs it: the panic that ends it, or \<open>None\<close> when it
  returns. The outcome of the calls on the directory and the file system are its inputs.
\<close>

definition assert :: "bool \<Rightarrow> panic option" where
  "assert check = (if \<not> check then Some (PanicMessage ''assertion failed'') else None)"

definition testFileManager :: "dir_calls \<Rightarrow> world \<Rightarrow> panic option" where
  "testFileManager os w =
     (case newFileManager os ''file-manager-test-dir'' 400 of
        Inl e \<Rightarrow> Some e
      | Inr fm \<Rightarrow>
          (let blk = newBlockID ''testfile'' 2 in
           case newPage (blocksize fm) of
             Inl e \<Rightarrow> Some e
           | Inr p1 \<Rightarrow>
               (let pos1 = 88 in
                case setString p1 pos1 ''abcdefghijklm'' of
                  (Some e, _) \<Rightarrow> Some e
                | (None, p1a) \<Rightarrow>
                    (let pos2 = pos1 + maxLength ''abcdefghijklm'';
                         n = 4096
                     in case setInt p1a pos2 n of
                          (Some e, _) \<Rightarrow> Some e
                        | (None, p1b) \<Rightarrow>
                            (case write_fm w fm blk p1b of
                               Inl e \<Rightarrow> Some e
                             | Inr (w1, fm1) \<Rightarrow>
                                 (case newPage (blocksize fm1) of
                                    Inl e \<Rightarrow> Some e
                                  | Inr p2 \<Rightarrow>
                                      (case read_fm w1 fm1 blk p2 of
                                         Inl e \<Rightarrow> Some e
                                       | Inr (p2a, w2, fm2) \<Rightarrow>
                                           (case getInt p2a pos2 of
                                              Inl e \<Rightarrow> Some e
                                            | Inr v \<Rightarrow>
                                                (case assert (n = v) of
                                                   Some e \<Rightarrow> Some e
                                                 | None \<Rightarrow>
                                                     (case getString p2a pos1 of
                                                        Inl e \<Rightarrow> Some e
                                                      | Inr s \<Rightarrow>
                                                          assert (''abcdefghijklm'' = s)))))))))))"

definition main :: "dir_calls \<Rightarrow> world \<Rightarrow> panic option" where
  "main os w = testFileManager os w"

section \<open>Vocabulary of the claims\<close>


text \<open>The bytes of block \<open>n\<close> in a file with contents \<open>c\<close>, for blocks of \<open>bsize\<close> bytes.\<close>

definition block_of :: "byte list \<Rightarrow> nat \<Rightarrow> nat \<Rightarrow> byte list" where
  "block_of c n bsize = take bsize (drop (n * bsize) c)"

text \<open>
  A file system with no file in it, on which every file can be created and grow to
  \<open>2 ^ 44\<close> bytes and \<open>path.Join\<close> of two clean names puts a slash between them; and
  the manager that \<open>newFileManager\<close> returns for the directory \<open>dir\<close> when \<open>os.Open\<close>
  succeeds. The examples below start from them.
\<close>

definition test_world :: world where
  "test_world = \<lparr>disk = Map.empty, create_error = Map.empty,
                  path_Join = (\<lambda>d n. d @ ''/'' @ n), max_file_size = 2 ^ 44\<rparr>"

definition test_manager :: "go_int \<Rightarrow> FileManager" where
  "test_manager bsize =
     \<lparr>directory = Some \<lparr>fname = ''dir'', fpos = 0\<rparr>, blocksize = bsize, files = Map.empty\<rparr>"

text \<open>
  A call of the file manager by its user, and a sequence of calls made one after the
  other: the world and the manager after the last call, or the panic of the first call
  that does not return.
\<close>

datatype call = Read BlockID Page | Write BlockID Page | Append string | Length string

definition call_fm :: "world \<Rightarrow> FileManager \<Rightarrow> call \<Rightarrow> panic + (world \<times> FileManager)" where
  "call_fm w fm c =
     (case c of
        Read blk p \<Rightarrow>
          (case read_fm w fm blk p of Inl e \<Rightarrow> Inl e | Inr (p', w', fm') \<Rightarrow> Inr (w', fm'))
      | Write blk p \<Rightarrow> write_fm w fm blk p
      | Append name \<Rightarrow>
          (case append_fm w fm name of Inl e \<Rightarrow> Inl e | Inr (blk, w', fm') \<Rightarrow> Inr (w', fm'))
      | Length name \<Rightarrow>
          (case length_fm w fm name of Inl e \<Rightarrow> Inl e | Inr (n, w', fm') \<Rightarrow> Inr (w', fm')))"

fun calls_fm :: "world \<Rightarrow> FileManager \<Rightarrow> call list \<Rightarrow> panic + (world \<times> FileManager)" where
  "calls_fm w fm [] = Inr (w, fm)"
| "calls_fm w fm (c # cs) =
     (case call_fm w fm c of Inl e \<Rightarrow> Inl e | Inr (w', fm') \<Rightarrow> calls_fm w' fm' cs)"

definition call_name :: "call \<Rightarrow> string" where
  "call_name c =
     (case c of Read blk p \<Rightarrow> filename blk | Write blk p \<Rightarrow> filename blk
      | Append name \<Rightarrow> name | Length name \<Rightarrow> name)"

text \<open>
  The path of the file that \<open>getFile\<close> uses for a file name: that of the open file the
  manager holds for the name, or else the path at which it would create one.
\<close>

definition file_of :: "world \<Rightarrow> FileManager \<Rightarrow> string \<Rightarrow> path option" where
  "file_of w fm name =
     (case files fm name of
        Some h \<Rightarrow> Some (fname h)
      | None \<Rightarrow>
          (case directory fm of None \<Rightarrow> None | Some d \<Rightarrow> Some (path_Join w (fname d) name)))"

text \<open>
  The offset of a block, \<open>blknum * blocksize\<close> as a product of integers, is one that
  \<open>Seek\<close> accepts.
\<close>

definition in_range :: "world \<Rightarrow> FileManager \<Rightarrow> BlockID \<Rightarrow> bool" where
  "in_range w fm blk =
     (0 \<le> sint (blknum blk)
      \<and> sint (blknum blk) * sint (blocksize fm) \<le> int (file_limit w))"

text \<open>
  \<open>spares w fm blk c\<close>: the call \<open>c\<close>, made in the state \<open>w\<close>, \<open>fm\<close>, is none that can
  change block \<open>blk\<close>. It does not open the file of \<open>blk\<close> anew under a file name that the
  manager has not yet seen (which would truncate the file); and if it is a \<open>write\<close> to
  the file of \<open>blk\<close>, then to another block of it, at an offset that \<open>Seek\<close> accepts, and
  of at most \<open>blocksize\<close> bytes. \<open>untouched w fm blk cs\<close>: every call of the sequence
  \<open>cs\<close>, in the state in which it is made, spares \<open>blk\<close>.
\<close>

definition spares :: "world \<Rightarrow> FileManager \<Rightarrow> BlockID \<Rightarrow> call \<Rightarrow> bool" where
  "spares w fm blk c =
     (\<not> (files fm (call_name c) = None
          \<and> file_of w fm (call_name c) = file_of w fm (filename blk))
      \<and> (case c of
           Write b p \<Rightarrow>
             file_of w fm (filename b) = file_of w fm (filename blk) \<longrightarrow>
               blknum b \<noteq> blknum blk \<and> in_range w fm b
               \<and> length (elems (buf p)) \<le> nat (sint (blocksize fm))
         | _ \<Rightarrow> True))"

fun untouched :: "world \<Rightarrow> FileManager \<Rightarrow> BlockID \<Rightarrow> call list \<Rightarrow> bool" where
  "untouched w fm blk [] = True"
| "untouched w fm blk (c # cs) =
     (spares w fm blk c
      \<and> (case call_fm w fm c of
           Inl e \<Rightarrow> True
         | Inr (w', fm') \<Rightarrow> untouched w' fm' blk cs))"

text \<open>
  \<open>zero_block w fm blk\<close>: the manager holds the open file of \<open>blk\<close>, and block \<open>blk\<close> of
  that file is \<open>blocksize\<close> zero bytes.
\<close>

definition zero_block :: "world \<Rightarrow> FileManager \<Rightarrow> BlockID \<Rightarrow> bool" where
  "zero_block w fm blk =
     (case files fm (filename blk) of
        None \<Rightarrow> False
      | Some h \<Rightarrow>
          (case disk w (fname h) of
             None \<Rightarrow> False
           | Some c \<Rightarrow>
               block_of c (nat (sint (blknum blk))) (nat (sint (blocksize fm)))
                 = replicate (nat (sint (blocksize fm))) 0))"

section \<open>Words and byte lists\<close>

text \<open>Signed 32-bit and 64-bit arithmetic without and with wrap-around.\<close>

lemma sint_add32:
  "- (2 ^ 31) \<le> sint a + sint b \<Longrightarrow> sint a + sint b < 2 ^ 31 \<Longrightarrow>
     sint (a + b :: int32) = sint a + sint b"
  by (simp add: sint_word_ariths signed_take_bit_int_eq_self)

lemma sint_add32_overflow:
  assumes "2 ^ 31 \<le> sint a + sint b"
  shows "sint (a + b :: int32) < 0"
proof -
  have "sint (a + b) = signed_take_bit 31 (sint a + sint b)"
    by (simp add: sint_word_ariths)
  also have "\<dots> \<le> sint a + sint b - 2 ^ Suc 31"
    using assms by (intro signed_take_bit_int_less_eq) simp
  also have "\<dots> < 0"
    using sint_lt [of a] sint_lt [of b] by simp
  finally show ?thesis .
qed

lemma sint_of_nat32: "k < 2 ^ 31 \<Longrightarrow> sint (word_of_nat k :: int32) = int k"
  by (simp add: signed_of_nat signed_take_bit_int_eq_self)


lemma sint_int32size: "sint int32size = 4"
  by (simp add: int32size_def)

lemma sint_of_nat64: "k < 2 ^ 63 \<Longrightarrow> sint (word_of_nat k :: go_int) = int k"
  by (simp add: signed_of_nat signed_take_bit_int_eq_self)


lemma sdiv_nonneg: "0 \<le> k \<Longrightarrow> 0 < l \<Longrightarrow> (k :: int) sdiv l = k div l"
  by (simp add: signed_divide_int_def sgn_if)

lemma positive_blocksize:
  assumes "0 <s (b :: go_int)"
  shows "0 < nat (sint b)" and "sint b = int (nat (sint b))" and "b = word_of_nat (nat (sint b))"
proof -
  from assms have p: "0 < sint b" by (simp add: word_sless_alt)
  then show "0 < nat (sint b)" and "sint b = int (nat (sint b))" by simp_all
  have "word_of_nat (nat (sint b)) = (word_of_int (sint b) :: go_int)"
    using p by simp
  then show "b = word_of_nat (nat (sint b))" by simp
qed

text \<open>The big-endian decoding inverts the encoding.\<close>

lemma Uint32_PutUint32: "Uint32 (PutUint32 v) = v"
proof (rule bit_word_eqI)
  fix n assume "n < LENGTH(32)"
  then have "n < 8 \<or> (8 \<le> n \<and> n < 16) \<or> (16 \<le> n \<and> n < 24) \<or> (24 \<le> n \<and> n < 32)" by auto
  then show "bit (Uint32 (PutUint32 v)) n = bit v n"
    by (auto simp: Uint32_def PutUint32_def bit_simps)
qed

lemma byteSliceToInt32_int32ToByteSlice: "byteSliceToInt32 (int32ToByteSlice n) = n"
  by (simp add: byteSliceToInt32_def int32ToByteSlice_def Uint32_PutUint32)

lemma length_PutUint32: "length (PutUint32 v) = 4"
  by (simp add: PutUint32_def)

lemma Uint32_prefix: "length xs = 4 \<Longrightarrow> Uint32 (xs @ ys) = Uint32 xs"
  by (simp add: Uint32_def nth_append)

text \<open>Windows of a byte array.\<close>

lemma length_put_at: "i + length ys \<le> length xs \<Longrightarrow> length (put_at xs i ys) = length xs"
  by (simp add: put_at_def)

lemma drop_put_at:
  "i \<le> length xs \<Longrightarrow> drop i (put_at xs i ys) = ys @ drop (i + length ys) xs"
  by (simp add: put_at_def)

lemma put_at_append:
  "i + length ys \<le> length xs \<Longrightarrow> put_at (xs @ zs) i ys = put_at xs i ys @ zs"
  by (simp add: put_at_def)

lemma put_at_put_at:
  assumes "i + 4 + length bs \<le> length xs" and "length pu = 4"
  shows "put_at (put_at xs i pu) (i + 4) bs = take i xs @ pu @ bs @ drop (i + 4 + length bs) xs"
  using assms by (simp add: put_at_def add.commute add.left_commute)

lemma put_at_Nil: "put_at xs i [] = xs"
  by (simp add: put_at_def)

lemma take_stored:
  assumes "i + 4 + length bs \<le> length xs" and "length pu = 4"
  shows "take (4 + length bs) (drop i (put_at (put_at xs i pu) (i + 4) bs)) = pu @ bs"
  using assms by (simp add: put_at_put_at)

lemma take_drop_take:
  assumes "a + k \<le> b"
  shows "take k (drop a (take b xs)) = take k (drop a xs)"
proof -
  have "k \<le> b - a" using assms by linarith
  then have "min k (b - a) = k" by simp
  then show ?thesis by (simp add: drop_take)
qed

lemma length_copy_bytes: "length (copy_bytes dst src) = length dst"
  by (simp add: copy_bytes_def Let_def)

lemma copy_bytes_full: "length dst = length src \<Longrightarrow> copy_bytes dst src = src"
  by (simp add: copy_bytes_def Let_def)

lemma copy_window_eq:
  assumes "lo \<le> hi" and "hi \<le> length arr"
  shows "put_at arr lo (copy_bytes (take (hi - lo) (drop lo arr)) bs)
           = put_at arr lo (take (min (hi - lo) (length bs)) bs)"
proof -
  let ?k = "min (hi - lo) (length bs)"
  let ?dst = "take (hi - lo) (drop lo arr)"
  have ld: "length ?dst = hi - lo" using assms by simp
  have c: "copy_bytes ?dst bs = take ?k bs @ drop ?k ?dst"
    using ld by (simp add: copy_bytes_def Let_def)
  have lk: "length (take ?k bs) = ?k" by simp
  have d: "drop ?k ?dst = take (hi - lo - ?k) (drop (lo + ?k) arr)"
    by (simp add: drop_take) (simp add: add.commute)
  have "put_at arr lo (copy_bytes ?dst bs)
          = take lo arr @ take ?k bs @ (drop ?k ?dst @ drop hi arr)"
    unfolding put_at_def c using assms ld by simp
  also have "drop ?k ?dst @ drop hi arr = drop (lo + ?k) arr"
  proof -
    have "drop hi arr = drop (hi - lo - ?k) (drop (lo + ?k) arr)"
      using assms by simp
    then show ?thesis unfolding d by (simp only: append_take_drop_id)
  qed
  finally show ?thesis unfolding put_at_def using lk by simp
qed

text \<open>Strings and their bytes.\<close>

lemma string_of_bytes_of_string: "string_of_bytes (bytes_of_string s) = s"
  by (induction s) (simp_all add: string_of_bytes_def bytes_of_string_def unat_of_nat)

lemma length_bytes_of_string: "length (bytes_of_string s) = length s"
  by (simp add: bytes_of_string_def)

lemma sint_maxLength:
  "4 + int (length s) < 2 ^ 31 \<Longrightarrow> sint (maxLength s) = 4 + int (length s)"
  by (simp add: maxLength_def sint_add32 sint_int32size sint_of_nat32)

section \<open>Page accessors\<close>

subsection \<open>Calls in bounds\<close>

lemma setInt_ok:
  assumes "0 \<le> sint offset" "sint offset + 4 \<le> int (length (elems (buf p)))"
  shows "setInt p offset n =
     (None, p\<lparr>buf := (buf p)\<lparr>elems := put_at (elems (buf p)) (nat (sint offset)) (PutUint32 n)\<rparr>\<rparr>)"
  using assms by (simp add: setInt_def)

lemma getInt_ok:
  assumes "0 \<le> sint offset" "sint offset + 4 \<le> int (length (elems (buf p)))"
  shows "getInt p offset = Inr (Uint32 (drop (nat (sint offset)) (elems (buf p))))"
  using assms by (simp add: getInt_def Let_def)

lemma getInt_after_setInt:
  assumes "0 \<le> sint offset" and "sint offset + 4 \<le> int (length (elems (buf p)))"
  shows "getInt (snd (setInt p offset n)) offset = Inr n"
proof -
  let ?o = "nat (sint offset)"
  let ?q = "p\<lparr>buf := (buf p)\<lparr>elems := put_at (elems (buf p)) ?o (PutUint32 n)\<rparr>\<rparr>"
  have b: "?o + 4 \<le> length (elems (buf p))" using assms by linarith
  have s: "setInt p offset n = (None, ?q)" using assms by (rule setInt_ok)
  have len: "length (elems (buf ?q)) = length (elems (buf p))"
    using b by (simp add: length_put_at length_PutUint32)
  have "getInt ?q offset = Inr (Uint32 (drop ?o (elems (buf ?q))))"
    using assms len by (intro getInt_ok) simp_all
  also have "drop ?o (elems (buf ?q)) = PutUint32 n @ drop (?o + 4) (elems (buf p))"
    using b by (simp add: drop_put_at length_PutUint32)
  also have "Uint32 \<dots> = n"
    by (simp add: Uint32_prefix length_PutUint32 Uint32_PutUint32)
  finally show ?thesis using s by simp
qed

lemma setBytes_ok:
  assumes "0 \<le> sint offset"
    and "sint offset + 4 + int (length bs) \<le> int (length (elems (buf p)))"
    and "sint offset + 4 + int (length bs) < 2 ^ 31"
  shows "setBytes p offset bs =
     (None, p\<lparr>buf := (buf p)\<lparr>elems :=
        put_at (put_at (elems (buf p)) (nat (sint offset)) (PutUint32 (word_of_nat (length bs))))
          (nat (sint offset) + 4) bs\<rparr>\<rparr>)"
proof -
  let ?o = "nat (sint offset)"
  let ?n = "word_of_nat (length bs) :: int32"
  let ?E = "elems (buf p)"
  let ?E1 = "put_at ?E ?o (PutUint32 ?n)"
  let ?p1 = "p\<lparr>buf := (buf p)\<lparr>elems := ?E1\<rparr>\<rparr>"
  have b: "?o + 4 + length bs \<le> length ?E" using assms by linarith
  have s1: "setInt p offset ?n = (None, ?p1)"
    using assms by (intro setInt_ok) simp_all
  have l1: "length ?E1 = length ?E"
    using b by (simp add: length_put_at length_PutUint32)
  have n: "sint ?n = int (length bs)"
    using assms by (intro sint_of_nat32) simp
  have st: "sint (offset + int32size) = sint offset + 4"
    using assms by (simp add: sint_add32 sint_int32size)
  have en: "sint (offset + int32size + ?n) = sint offset + 4 + int (length bs)"
    using assms st n by (simp add: sint_add32)
  have lo: "nat (sint (offset + int32size)) = ?o + 4" using st assms by simp
  have hi: "nat (sint (offset + int32size + ?n)) = ?o + 4 + length bs" using en assms by simp
  have ok: "slice_ok (buf ?p1) (sint (offset + int32size)) (sint (offset + int32size + ?n))"
    using assms st en l1 by (simp add: slice_ok_def cap_def)
  have dst: "length (take (length bs) (drop (?o + 4) (?E1 @ spare (buf p)))) = length bs"
    using b l1 by simp
  have arr: "put_at (?E1 @ spare (buf p)) (?o + 4) bs = put_at ?E1 (?o + 4) bs @ spare (buf p)"
    using b l1 by (intro put_at_append) simp
  have l2: "length (put_at ?E1 (?o + 4) bs) = length ?E"
    using b l1 by (simp add: length_put_at)
  show ?thesis
    unfolding setBytes_def Let_def s1
    using ok lo hi dst arr l1 l2 by (simp add: copy_bytes_full)
qed

lemma getBytes_stored:
  assumes "0 \<le> sint offset"
    and "sint offset + 4 + int (length bs) \<le> int (length (elems (buf p)))"
    and "sint offset + 4 + int (length bs) < 2 ^ 31"
    and "take (4 + length bs) (drop (nat (sint offset)) (elems (buf p)))
           = PutUint32 (word_of_nat (length bs)) @ bs"
  shows "getBytes p offset = Inr bs"
proof -
  let ?o = "nat (sint offset)"
  let ?n = "word_of_nat (length bs) :: int32"
  let ?E = "elems (buf p)"
  have b: "?o + 4 + length bs \<le> length ?E" using assms by linarith
  have d: "drop ?o ?E = (PutUint32 ?n @ bs) @ drop (4 + length bs) (drop ?o ?E)"
    using assms(4) append_take_drop_id [of "4 + length bs" "drop ?o ?E"] by simp
  have "getInt p offset = Inr (Uint32 (drop ?o ?E))"
    using assms by (intro getInt_ok) simp_all
  also have "Uint32 (drop ?o ?E) = ?n"
    by (subst d) (simp add: Uint32_prefix length_PutUint32 Uint32_PutUint32)
  finally have g: "getInt p offset = Inr ?n" .
  have n: "sint ?n = int (length bs)"
    using assms by (intro sint_of_nat32) simp
  have st: "sint (offset + int32size) = sint offset + 4"
    using assms by (simp add: sint_add32 sint_int32size)
  have en: "sint (offset + int32size + ?n) = sint offset + 4 + int (length bs)"
    using assms st n by (simp add: sint_add32)
  have lo: "nat (sint (offset + int32size)) = ?o + 4" using st assms by simp
  have hi: "nat (sint (offset + int32size + ?n)) = ?o + 4 + length bs" using en assms by simp
  have ok: "slice_ok (buf p) (sint (offset + int32size)) (sint (offset + int32size + ?n))"
    using assms st en by (simp add: slice_ok_def cap_def)
  have "take (length bs) (drop (?o + 4) (?E @ spare (buf p))) = take (length bs) (drop 4 (drop ?o ?E))"
    using b by (simp add: add.commute)
  also have "\<dots> = bs"
    by (subst d) (simp add: length_PutUint32)
  finally have w: "take (length bs) (drop (?o + 4) (?E @ spare (buf p))) = bs" .
  have small: "\<not> maxAlloc < length bs"
    using assms(1,3) by (simp add: maxAlloc_def)
  show ?thesis
    unfolding getBytes_def Let_def g
    using ok lo hi n w small by (simp add: make_bytes_def copy_bytes_full)
qed

lemma setBytes_shape:
  assumes "0 \<le> sint offset"
    and "sint offset + 4 + int (length bs) \<le> int (length (elems (buf p)))"
  shows "\<exists>r k. k \<le> length bs \<and> setBytes p offset bs =
     (r, p\<lparr>buf := (buf p)\<lparr>elems :=
        put_at (put_at (elems (buf p)) (nat (sint offset)) (PutUint32 (word_of_nat (length bs))))
          (nat (sint offset) + 4) (take k bs)\<rparr>\<rparr>)"
proof -
  let ?o = "nat (sint offset)"
  let ?n = "word_of_nat (length bs) :: int32"
  let ?E = "elems (buf p)"
  let ?E1 = "put_at ?E ?o (PutUint32 ?n)"
  let ?p1 = "p\<lparr>buf := (buf p)\<lparr>elems := ?E1\<rparr>\<rparr>"
  let ?start = "offset + int32size"
  let ?end = "?start + ?n"
  have b: "?o + 4 + length bs \<le> length ?E" using assms by linarith
  have s1: "setInt p offset ?n = (None, ?p1)"
    using assms by (intro setInt_ok) simp_all
  have l1: "length ?E1 = length ?E"
    using b by (simp add: length_put_at length_PutUint32)
  show ?thesis
  proof (cases "slice_ok (buf ?p1) (sint ?start) (sint ?end)")
    case False
    then have "setBytes p offset bs = (Some SliceBoundsOutOfRange, ?p1)"
      unfolding setBytes_def Let_def s1 by simp
    moreover have "?p1 = p\<lparr>buf := (buf p)\<lparr>elems := put_at ?E1 (?o + 4) (take 0 bs)\<rparr>\<rparr>"
      by (simp add: put_at_Nil)
    ultimately show ?thesis by (metis le0)
  next
    case True
    let ?lo = "nat (sint ?start)"
    let ?hi = "nat (sint ?end)"
    let ?arr = "?E1 @ spare (buf p)"
    let ?k = "min (?hi - ?lo) (length bs)"
    from True have r: "0 \<le> sint ?start" "sint ?start \<le> sint ?end"
      "sint ?end \<le> int (length ?arr)"
      using l1 by (simp_all add: slice_ok_def cap_def)
    have "sint offset + 4 < 2 ^ 31"
    proof (rule ccontr)
      assume "\<not> sint offset + 4 < 2 ^ 31"
      then have "sint ?start < 0"
        by (intro sint_add32_overflow) (simp add: sint_int32size)
      with r(1) show False by simp
    qed
    then have st: "sint ?start = sint offset + 4"
      using assms by (simp add: sint_add32 sint_int32size)
    then have lo: "?lo = ?o + 4" using assms by simp
    have lohi: "?lo \<le> ?hi" "?hi \<le> length ?arr" using r by linarith+
    have w: "put_at ?arr ?lo (copy_bytes (take (?hi - ?lo) (drop ?lo ?arr)) bs)
               = put_at ?arr ?lo (take ?k bs)"
      using lohi by (rule copy_window_eq)
    have fit: "?lo + length (take ?k bs) \<le> length ?E1" using lo b l1 by simp
    have ap: "put_at ?arr ?lo (take ?k bs) = put_at ?E1 ?lo (take ?k bs) @ spare (buf p)"
      using fit by (rule put_at_append)
    have l2: "length (put_at ?E1 ?lo (take ?k bs)) = length ?E"
      using fit l1 by (simp add: length_put_at)
    have tk: "take (length ?E) (put_at ?E1 ?lo (take ?k bs) @ spare (buf p))
                = put_at ?E1 ?lo (take ?k bs)"
      and dr: "drop (length ?E) (put_at ?E1 ?lo (take ?k bs) @ spare (buf p)) = spare (buf p)"
      using l2 by simp_all
    have "setBytes p offset bs =
        (None, p\<lparr>buf := (buf p)\<lparr>elems := put_at ?E1 ?lo (take ?k bs)\<rparr>\<rparr>)"
      unfolding setBytes_def Let_def s1 using True l1
      by (simp add: w ap tk dr del: drop_append take_append)
    then show ?thesis unfolding lo by (metis min.cobounded2)
  qed
qed

text \<open>
  Claim C5. For every page, every offset \<open>o\<close> into its buffer (\<open>0 \<le> o\<close>) with
  \<open>o + 4 \<le> block_size\<close>, where \<open>block_size\<close> is the length of the buffer, and every
  32-bit integer \<open>n\<close>: \<open>setInt(o, n)\<close> returns, and \<open>getInt(o)\<close> on the page then
  returns exactly \<open>n\<close>.
\<close>

theorem setInt_getInt:
  assumes "0 \<le> sint offset" and "sint offset + 4 \<le> int (length (elems (buf p)))"
  shows "fst (setInt p offset n) = None \<and> getInt (snd (setInt p offset n)) offset = Inr n"
  using setInt_ok [OF assms, of n] getInt_after_setInt [OF assms, of n] by simp

text \<open>The self-test of the program: block size 400, \<open>setInt(105, 4096)\<close>.\<close>

theorem setInt_getInt_witness:
  "fst (setInt \<lparr>buf = \<lparr>elems = replicate 400 0, spare = []\<rparr>\<rparr> 105 4096) = None
   \<and> getInt (snd (setInt \<lparr>buf = \<lparr>elems = replicate 400 0, spare = []\<rparr>\<rparr> 105 4096)) 105
       = Inr 4096"
  using setInt_getInt [of 105 "\<lparr>buf = \<lparr>elems = replicate 400 0, spare = []\<rparr>\<rparr>" 4096]
  by simp

text \<open>
  Claim C6, as the specification states it, fails: \<open>setBytes\<close> stores \<open>int32(len(b))\<close>
  and computes the end of the data in \<open>int32\<close>. In a page of \<open>2^32 + 4\<close> bytes a
  sequence \<open>b\<close> of \<open>2^32\<close> bytes satisfies \<open>0 + 4 + len(b) \<le> block_size\<close>, yet
  \<open>setBytes(0, b)\<close> stores the length 0 and copies nothing, and \<open>getBytes(0)\<close> returns
  the empty sequence.
\<close>

theorem setBytes_getBytes_counterexample:
  "0 + 4 + length (replicate (2 ^ 32) (1 :: byte))
      \<le> length (elems (buf \<lparr>buf = \<lparr>elems = replicate (2 ^ 32 + 4) 0, spare = []\<rparr>\<rparr>))
   \<and> fst (setBytes \<lparr>buf = \<lparr>elems = replicate (2 ^ 32 + 4) 0, spare = []\<rparr>\<rparr> 0
          (replicate (2 ^ 32) 1)) = None
   \<and> getBytes (snd (setBytes \<lparr>buf = \<lparr>elems = replicate (2 ^ 32 + 4) 0, spare = []\<rparr>\<rparr> 0
          (replicate (2 ^ 32) 1))) 0 = Inr []
   \<and> replicate (2 ^ 32) (1 :: byte) \<noteq> []"
  by (simp add: setBytes_def setInt_def getBytes_def getInt_def make_bytes_def maxAlloc_def
        Let_def slice_ok_def cap_def int32size_def put_at_def copy_bytes_def PutUint32_def
        Uint32_def nth_append)

text \<open>
  Claim C6, amended. For every page, every offset \<open>o \<ge> 0\<close> and every byte sequence
  \<open>b\<close> with \<open>o + 4 + len(b) \<le> block_size\<close> and \<open>o + 4 + len(b) < 2^31\<close> (the end of the
  data is an \<open>int32\<close>): \<open>setBytes(o, b)\<close> returns and \<open>getBytes(o)\<close> then returns
  \<open>b\<close>. Likewise for every string \<open>s\<close> with \<open>o + maxLength(s) \<le> block_size\<close> and
  \<open>o + 4 + len(s) < 2^31\<close>: \<open>setString(o, s)\<close> returns and \<open>getString(o)\<close> then returns
  \<open>s\<close>, whatever bytes \<open>s\<close> holds.
\<close>

theorem setBytes_getBytes:
  assumes "0 \<le> sint offset"
  shows "(sint offset + 4 + int (length b) \<le> int (length (elems (buf p)))
            \<and> sint offset + 4 + int (length b) < 2 ^ 31 \<longrightarrow>
          fst (setBytes p offset b) = None
            \<and> getBytes (snd (setBytes p offset b)) offset = Inr b)
       \<and> (sint offset + sint (maxLength s) \<le> int (length (elems (buf p)))
            \<and> sint offset + 4 + int (length s) < 2 ^ 31 \<longrightarrow>
          fst (setString p offset s) = None
            \<and> getString (snd (setString p offset s)) offset = Inr s)"
proof -
  have bytes: "fst (setBytes p offset bs) = None
        \<and> getBytes (snd (setBytes p offset bs)) offset = Inr bs"
    if h: "sint offset + 4 + int (length bs) \<le> int (length (elems (buf p)))"
          "sint offset + 4 + int (length bs) < 2 ^ 31" for bs
  proof -
    let ?o = "nat (sint offset)"
    let ?pu = "PutUint32 (word_of_nat (length bs))"
    let ?E' = "put_at (put_at (elems (buf p)) ?o ?pu) (?o + 4) bs"
    let ?q = "p\<lparr>buf := (buf p)\<lparr>elems := ?E'\<rparr>\<rparr>"
    have b: "?o + 4 + length bs \<le> length (elems (buf p))" using assms h by linarith
    have s: "setBytes p offset bs = (None, ?q)"
      using assms h by (rule setBytes_ok)
    have len: "length ?E' = length (elems (buf p))"
      using b by (simp add: length_put_at length_PutUint32)
    have "getBytes ?q offset = Inr bs"
    proof (rule getBytes_stored)
      show "0 \<le> sint offset" by (rule assms)
      show "sint offset + 4 + int (length bs) \<le> int (length (elems (buf ?q)))"
        using h len by simp
      show "sint offset + 4 + int (length bs) < 2 ^ 31" by (rule h)
      show "take (4 + length bs) (drop ?o (elems (buf ?q))) = ?pu @ bs"
        using b by (simp add: take_stored length_PutUint32)
    qed
    with s show ?thesis by simp
  qed
  have strings: "fst (setString p offset s) = None
        \<and> getString (snd (setString p offset s)) offset = Inr s"
    if h: "sint offset + sint (maxLength s) \<le> int (length (elems (buf p)))"
          "sint offset + 4 + int (length s) < 2 ^ 31"
  proof -
    have m: "sint (maxLength s) = 4 + int (length s)"
      using assms h by (intro sint_maxLength) linarith
    have "fst (setBytes p offset (bytes_of_string s)) = None
        \<and> getBytes (snd (setBytes p offset (bytes_of_string s))) offset = Inr (bytes_of_string s)"
      using h m by (intro bytes) (simp_all add: length_bytes_of_string)
    then show ?thesis
      by (simp add: setString_def getString_def string_of_bytes_of_string)
  qed
  from bytes [of b] strings show ?thesis by blast
qed

text \<open>The self-test of the program: \<open>setString(88, "abcdefghijklm")\<close> in a page of 400 bytes.\<close>

theorem setBytes_getBytes_witness:
  "fst (setBytes \<lparr>buf = \<lparr>elems = replicate 400 0, spare = []\<rparr>\<rparr> 88 [1, 2, 3]) = None
   \<and> getBytes (snd (setBytes \<lparr>buf = \<lparr>elems = replicate 400 0, spare = []\<rparr>\<rparr> 88 [1, 2, 3])) 88
       = Inr [1, 2, 3]
   \<and> fst (setString \<lparr>buf = \<lparr>elems = replicate 400 0, spare = []\<rparr>\<rparr> 88 ''abcdefghijklm'') = None
   \<and> getString (snd (setString \<lparr>buf = \<lparr>elems = replicate 400 0, spare = []\<rparr>\<rparr> 88
         ''abcdefghijklm'')) 88 = Inr ''abcdefghijklm''"
  using setBytes_getBytes [of 88 "[1, 2, 3]" "\<lparr>buf = \<lparr>elems = replicate 400 0, spare = []\<rparr>\<rparr>"
     "''abcdefghijklm''"]
  by (simp add: maxLength_def int32size_def)

text \<open>
  Claim C10. For every page and every write in bounds (\<open>0 \<le> o\<close> and the written range
  ends at or before \<open>block_size\<close>): \<open>setInt(o, n)\<close> leaves the length of the buffer,
  the bytes before index \<open>o\<close>, the bytes from index \<open>o + 4\<close> on and the backing array
  beyond the buffer as they were; \<open>setBytes(o, b)\<close> and \<open>setString(o, s)\<close> leave the
  length, the bytes before \<open>o\<close>, the bytes from \<open>o + 4 + len\<close> on and the backing array
  beyond the buffer as they were. This holds whether or not the call returns.
\<close>

theorem setters_frame:
  assumes "0 \<le> sint offset"
  shows "(sint offset + 4 \<le> int (length (elems (buf p))) \<longrightarrow>
            (let E = elems (buf p); E' = elems (buf (snd (setInt p offset n)));
                 lo = nat (sint offset)
             in length E' = length E \<and> take lo E' = take lo E
                \<and> drop (lo + 4) E' = drop (lo + 4) E
                \<and> spare (buf (snd (setInt p offset n))) = spare (buf p)))
       \<and> (sint offset + 4 + int (length bs) \<le> int (length (elems (buf p))) \<longrightarrow>
            (let E = elems (buf p); E' = elems (buf (snd (setBytes p offset bs)));
                 lo = nat (sint offset)
             in length E' = length E \<and> take lo E' = take lo E
                \<and> drop (lo + 4 + length bs) E' = drop (lo + 4 + length bs) E
                \<and> spare (buf (snd (setBytes p offset bs))) = spare (buf p)))
       \<and> (sint offset + 4 + int (length s) \<le> int (length (elems (buf p))) \<longrightarrow>
            (let E = elems (buf p); E' = elems (buf (snd (setString p offset s)));
                 lo = nat (sint offset)
             in length E' = length E \<and> take lo E' = take lo E
                \<and> drop (lo + 4 + length s) E' = drop (lo + 4 + length s) E
                \<and> spare (buf (snd (setString p offset s))) = spare (buf p)))"
proof -
  let ?o = "nat (sint offset)"
  let ?E = "elems (buf p)"
  have ints: "length (elems (buf (snd (setInt p offset n)))) = length ?E
      \<and> take ?o (elems (buf (snd (setInt p offset n)))) = take ?o ?E
      \<and> drop (?o + 4) (elems (buf (snd (setInt p offset n)))) = drop (?o + 4) ?E
      \<and> spare (buf (snd (setInt p offset n))) = spare (buf p)"
    if h: "sint offset + 4 \<le> int (length ?E)"
  proof -
    have b: "?o + 4 \<le> length ?E" using assms h by linarith
    have "setInt p offset n =
        (None, p\<lparr>buf := (buf p)\<lparr>elems := put_at ?E ?o (PutUint32 n)\<rparr>\<rparr>)"
      using assms h by (rule setInt_ok)
    then show ?thesis using b by (simp add: put_at_def length_PutUint32)
  qed
  have bytes: "length (elems (buf (snd (setBytes p offset xs)))) = length ?E
      \<and> take ?o (elems (buf (snd (setBytes p offset xs)))) = take ?o ?E
      \<and> drop (?o + 4 + length xs) (elems (buf (snd (setBytes p offset xs))))
           = drop (?o + 4 + length xs) ?E
      \<and> spare (buf (snd (setBytes p offset xs))) = spare (buf p)"
    if h: "sint offset + 4 + int (length xs) \<le> int (length ?E)" for xs
  proof -
    let ?pu = "PutUint32 (word_of_nat (length xs))"
    have b: "?o + 4 + length xs \<le> length ?E" using assms h by linarith
    obtain r k where k: "k \<le> length xs"
      and s: "setBytes p offset xs =
        (r, p\<lparr>buf := (buf p)\<lparr>elems := put_at (put_at ?E ?o ?pu) (?o + 4) (take k xs)\<rparr>\<rparr>)"
      using setBytes_shape [OF assms h] by blast
    have e: "put_at (put_at ?E ?o ?pu) (?o + 4) (take k xs)
               = take ?o ?E @ ?pu @ take k xs @ drop (?o + 4 + length (take k xs)) ?E"
      using b k by (intro put_at_put_at) (simp_all add: length_PutUint32)
    have lk: "length (take k xs) = k" using k by simp
    have d: "drop (?o + 4 + length xs) (take ?o ?E @ ?pu @ take k xs @ drop (?o + 4 + k) ?E)
               = drop (?o + 4 + length xs) ?E"
      using b k by (simp add: length_PutUint32) (simp add: add.commute)
    show ?thesis
      unfolding s using b k d by (simp add: e lk length_PutUint32)
  qed
  from ints bytes [of bs] bytes [of "bytes_of_string s"]
  show ?thesis
    by (simp add: Let_def setString_def length_bytes_of_string)
qed

theorem setters_frame_witness:
  "length (elems (buf (snd (setInt \<lparr>buf = \<lparr>elems = replicate 16 9, spare = [5]\<rparr>\<rparr> 4 7)))) = 16
   \<and> take 4 (elems (buf (snd (setInt \<lparr>buf = \<lparr>elems = replicate 16 9, spare = [5]\<rparr>\<rparr> 4 7))))
        = replicate 4 9
   \<and> drop 8 (elems (buf (snd (setInt \<lparr>buf = \<lparr>elems = replicate 16 9, spare = [5]\<rparr>\<rparr> 4 7))))
        = replicate 8 9
   \<and> take 4 (elems (buf (snd (setBytes \<lparr>buf = \<lparr>elems = replicate 16 9, spare = [5]\<rparr>\<rparr> 4
        [1, 2, 3])))) = replicate 4 9
   \<and> drop 11 (elems (buf (snd (setBytes \<lparr>buf = \<lparr>elems = replicate 16 9, spare = [5]\<rparr>\<rparr> 4
        [1, 2, 3])))) = replicate 5 9
   \<and> spare (buf (snd (setBytes \<lparr>buf = \<lparr>elems = replicate 16 9, spare = [5]\<rparr>\<rparr> 4 [1, 2, 3])))
        = [5]"
  using setters_frame
    [of 4 "\<lparr>buf = \<lparr>elems = replicate 16 9, spare = [5]\<rparr>\<rparr>" 7 "[1, 2, 3]" "''abc''"]
  by (simp add: Let_def)

text \<open>
  Fields laid out one after the other do not disturb each other: a byte sequence stored
  at \<open>o1\<close> is read back unchanged after an integer is stored behind it.
\<close>

lemma getBytes_setInt_after:
  assumes o1: "0 \<le> sint o1"
    and fit: "sint o2 + 4 \<le> int (length (elems (buf p)))"
    and small: "sint o1 + 4 + int (length bs) < 2 ^ 31"
    and apart: "sint o1 + 4 + int (length bs) \<le> sint o2"
  shows "getBytes (snd (setInt (snd (setBytes p o1 bs)) o2 n)) o1 = Inr bs"
proof -
  let ?a = "nat (sint o1)"
  let ?b = "nat (sint o2)"
  let ?E = "elems (buf p)"
  let ?pu = "PutUint32 (word_of_nat (length bs))"
  let ?E1 = "put_at (put_at ?E ?a ?pu) (?a + 4) bs"
  let ?p1 = "p\<lparr>buf := (buf p)\<lparr>elems := ?E1\<rparr>\<rparr>"
  let ?E2 = "put_at ?E1 ?b (PutUint32 n)"
  let ?p2 = "?p1\<lparr>buf := (buf ?p1)\<lparr>elems := ?E2\<rparr>\<rparr>"
  have o2: "0 \<le> sint o2" using o1 apart by linarith
  have fit1: "sint o1 + 4 + int (length bs) \<le> int (length ?E)" using fit apart by linarith
  have n1: "?a + 4 + length bs \<le> ?b" using o1 apart by linarith
  have n2: "?b + 4 \<le> length ?E" using o2 fit by linarith
  have s1: "setBytes p o1 bs = (None, ?p1)" using o1 fit1 small by (rule setBytes_ok)
  have l1: "length ?E1 = length ?E"
    using n1 n2 by (simp add: length_put_at length_PutUint32)
  have s2: "setInt ?p1 o2 n = (None, ?p2)"
    using setInt_ok [of o2 ?p1 n] o2 fit l1 by simp
  have l2: "length ?E2 = length ?E"
    using n2 l1 by (simp add: length_put_at length_PutUint32)
  have st: "take (4 + length bs) (drop ?a ?E1) = ?pu @ bs"
    using n1 n2 by (intro take_stored) (simp_all add: length_PutUint32)
  have "take (4 + length bs) (drop ?a ?E2)
          = take (4 + length bs) (drop ?a (take ?b ?E1))"
    unfolding put_at_def [of ?E1] using n1 n2 l1 by simp
  also have "\<dots> = take (4 + length bs) (drop ?a ?E1)"
    using n1 by (intro take_drop_take) simp
  finally have st2: "take (4 + length bs) (drop ?a ?E2) = ?pu @ bs" using st by simp
  have "getBytes ?p2 o1 = Inr bs"
  proof (rule getBytes_stored)
    show "0 \<le> sint o1" by (rule o1)
    show "sint o1 + 4 + int (length bs) \<le> int (length (elems (buf ?p2)))"
      using fit1 l2 by simp
    show "sint o1 + 4 + int (length bs) < 2 ^ 31" by (rule small)
    show "take (4 + length bs) (drop ?a (elems (buf ?p2))) = ?pu @ bs"
      using st2 by simp
  qed
  then show ?thesis by (simp add: s1 s2)
qed

subsection \<open>Calls out of bounds\<close>









lemma newPage_fresh:
  assumes "newPage bsize = Inr p"
  shows "elems (buf p) = replicate (nat (sint bsize)) 0" and "spare (buf p) = []"
  using assms by (auto simp: newPage_def make_bytes_def split: if_splits)




section \<open>FileManager\<close>

lemma getFile_hit: "files fm name = Some f \<Longrightarrow> getFile w fm name = Inr (f, w, fm)"
  by (simp add: getFile_def)

lemma getFile_result:
  assumes "getFile w fm name = Inr (f, w1, fm1)"
  shows "files fm1 name = Some f" and "blocksize fm1 = blocksize fm"
    and "directory fm1 = directory fm" and "file_limit w1 = file_limit w"
  using assms
  by (auto simp: getFile_def os_Create_def file_limit_def split: option.splits)

lemma getFile_again:
  assumes "getFile w fm name = Inr (f, w1, fm1)"
  shows "getFile w1 fm1 name = Inr (f, w1, fm1)"
  using getFile_result(1) [OF assms] by (rule getFile_hit)

lemma store_file_simps:
  "files (store_file fm name f) name = Some f"
  "blocksize (store_file fm name f) = blocksize fm"
  "directory (store_file fm name f) = directory fm"
  by (simp_all add: store_file_def)

lemma file_limit_less: "file_limit w < 2 ^ 63"
  by (simp add: file_limit_def min_def)

lemma seek_to:
  assumes "k \<le> file_limit w"
  shows "snd (os_Seek w f (word_of_nat k)) = f\<lparr>fpos := k\<rparr>"
proof -
  have "k < 2 ^ 63" using assms file_limit_less [of w] by linarith
  then have "sint (word_of_nat k :: go_int) = int k" by (rule sint_of_nat64)
  then show ?thesis using assms by (simp add: os_Seek_def word_sless_alt)
qed

lemma seek_nonneg:
  "0 \<le>s off \<Longrightarrow> nat (sint off) \<le> file_limit w \<Longrightarrow>
     snd (os_Seek w f off) = f\<lparr>fpos := nat (sint off)\<rparr>"
  by (simp add: os_Seek_def word_sless_alt word_sle_eq)

lemma seek_fname: "fname (snd (os_Seek w f off)) = fname f"
  by (simp add: os_Seek_def)

lemma write_at_tail:
  assumes "pos \<le> length c" and "length c < pos + length b" and "b \<noteq> []"
  shows "write_at c pos b = take pos c @ b"
  using assms by (simp add: write_at_def)

lemma written_block:
  assumes "b \<noteq> []"
  shows "pos + length b \<le> length (write_at c pos b)"
    and "take (length b) (drop pos (write_at c pos b)) = b"
proof -
  let ?pre = "take pos c @ replicate (pos - length c) 0"
  have l: "length ?pre = pos" by (simp add: min_def)
  have w: "write_at c pos b = ?pre @ b @ drop (pos + length b) c"
    using assms by (simp add: write_at_def)
  show "pos + length b \<le> length (write_at c pos b)"
    unfolding w using l by (simp only: length_append)
  have "drop pos (?pre @ b @ drop (pos + length b) c) = b @ drop (pos + length b) c"
    using l by (simp only: append_eq_conv_conj drop_append) simp
  then show "take (length b) (drop pos (write_at c pos b)) = b"
    unfolding w by simp
qed

lemma length_fm_value:
  assumes g: "getFile w fm name = Inr (f, w1, fm1)"
    and d: "disk w1 (fname f) = Some c"
    and lim: "length c < 2 ^ 63"
    and pos: "0 <s blocksize fm"
  shows "length_fm w fm name =
     Inr (word_of_nat (length c div nat (sint (blocksize fm))), w1, fm1)"
proof -
  let ?B = "nat (sint (blocksize fm))"
  have b: "blocksize fm1 = blocksize fm" using g by (rule getFile_result)
  have nz: "blocksize fm \<noteq> 0" using pos by auto
  have st: "os_Stat w1 f = Inr (word_of_nat (length c))" using d by (simp add: os_Stat_def)
  have "sint (word_of_nat (length c) :: go_int) sdiv sint (blocksize fm)
          = int (length c) div int ?B"
    using lim positive_blocksize [OF pos] by (simp add: sint_of_nat64 sdiv_nonneg)
  also have "\<dots> = int (length c div ?B)" by (simp add: zdiv_int)
  finally have q: "word_of_int (sint (word_of_nat (length c) :: go_int) sdiv sint (blocksize fm))
      = (word_of_nat (length c div ?B) :: go_int)" by simp
  show ?thesis
    unfolding length_fm_def g using st b nz q by simp
qed

lemma append_fm_value:
  assumes g: "getFile w fm name = Inr (f, w1, fm1)"
    and d: "disk w1 (fname f) = Some c"
    and pos: "0 <s blocksize fm"
    and alloc: "sint (blocksize fm) \<le> int maxAlloc"
    and lim: "length c div nat (sint (blocksize fm)) * nat (sint (blocksize fm))
                + nat (sint (blocksize fm)) \<le> file_limit w"
  shows "append_fm w fm name =
     Inr (\<lparr>filename = name,
           blknum = word_of_nat (length c div nat (sint (blocksize fm)))\<rparr>,
          w1\<lparr>disk := (disk w1)(fname f \<mapsto>
              take (length c div nat (sint (blocksize fm)) * nat (sint (blocksize fm))) c
                @ replicate (nat (sint (blocksize fm))) 0)\<rparr>,
          store_file fm1 name
            (f\<lparr>fpos := length c div nat (sint (blocksize fm)) * nat (sint (blocksize fm))
                    + nat (sint (blocksize fm))\<rparr>))"
proof -
  let ?B = "nat (sint (blocksize fm))"
  let ?q = "length c div ?B"
  have B: "0 < ?B" "sint (blocksize fm) = int ?B" "blocksize fm = word_of_nat ?B"
    using positive_blocksize [OF pos] by simp_all
  have b1: "blocksize fm1 = blocksize fm" using g by (rule getFile_result)
  have l1: "file_limit w1 = file_limit w" using g by (rule getFile_result)
  have le: "?q * ?B \<le> length c" by (rule div_times_less_eq_dividend)
  have gt: "length c < ?q * ?B + ?B"
    using dividend_less_div_times [OF B(1), of "length c"] by (simp add: add.commute)
  have c63: "length c < 2 ^ 63"
    using gt lim file_limit_less [of w] by linarith
  have len: "length_fm w fm name = Inr (word_of_nat ?q, w1, fm1)"
    using g d c63 pos by (rule length_fm_value)
  have mk: "make_bytes (sint (blocksize fm)) = Inr \<lparr>elems = replicate ?B 0, spare = []\<rparr>"
    using B(1) alloc by (simp add: make_bytes_def)
  have g1: "getFile w1 fm1 name = Inr (f, w1, fm1)" using g by (rule getFile_again)
  have "(word_of_nat ?q :: go_int) * blocksize fm = word_of_nat ?q * word_of_nat ?B"
    using B(3) by simp
  also have "\<dots> = word_of_nat (?q * ?B)" by simp
  finally have prod: "(word_of_nat ?q :: go_int) * blocksize fm = word_of_nat (?q * ?B)" .
  have qb: "?q * ?B \<le> file_limit w1" using lim l1 by linarith
  have qb1: "\<not> file_limit w1 < ?q * ?B + ?B" using lim l1 by linarith
  have sk: "snd (os_Seek w1 f (word_of_nat ?q * blocksize fm)) = f\<lparr>fpos := ?q * ?B\<rparr>"
    unfolding prod using qb by (rule seek_to)
  have wa: "write_at c (?q * ?B) (replicate ?B 0) = take (?q * ?B) c @ replicate ?B 0"
    using le gt B(1) by (intro write_at_tail) simp_all
  have wr: "os_Write w1 (f\<lparr>fpos := ?q * ?B\<rparr>) (replicate ?B 0) =
      ((?B, None), f\<lparr>fpos := ?q * ?B + ?B\<rparr>,
       w1\<lparr>disk := (disk w1)(fname f \<mapsto> take (?q * ?B) c @ replicate ?B 0)\<rparr>)"
    using d qb1 B(1) by (simp add: os_Write_def wa)
  show ?thesis
    unfolding append_fm_def len
    by (simp add: newBlockID_def b1 mk g1 sk wr Let_def)
qed

lemma read_fm_value:
  assumes h: "files fm (filename blk) = Some f"
    and d: "disk w (fname f) = Some c"
    and off: "0 \<le>s blknum blk * blocksize fm"
    and rng: "nat (sint (blknum blk * blocksize fm)) \<le> file_limit w"
    and fit: "elems (buf p) = []
              \<or> nat (sint (blknum blk * blocksize fm)) + length (elems (buf p)) \<le> length c"
    and rw: "length (elems (buf p)) \<le> maxRW"
  shows "read_fm w fm blk p =
     Inr (p\<lparr>buf := (buf p)\<lparr>elems :=
            take (length (elems (buf p))) (drop (nat (sint (blknum blk * blocksize fm))) c)\<rparr>\<rparr>,
          w,
          store_file fm (filename blk)
            (f\<lparr>fpos := nat (sint (blknum blk * blocksize fm)) + length (elems (buf p))\<rparr>))"
proof -
  let ?pos = "nat (sint (blknum blk * blocksize fm))"
  let ?n = "length (elems (buf p))"
  let ?d = "take ?n (drop ?pos c)"
  have g: "getFile w fm (filename blk) = Inr (f, w, fm)" using h by (rule getFile_hit)
  have sk: "snd (os_Seek w f (blknum blk * blocksize fm)) = f\<lparr>fpos := ?pos\<rparr>"
    using off rng by (rule seek_nonneg)
  have ld: "length ?d = ?n" using fit by auto
  have mn: "min ?n maxRW = ?n" using rw by simp
  have rd: "os_Read w (f\<lparr>fpos := ?pos\<rparr>) ?n = ((?d, None), f\<lparr>fpos := ?pos + ?n\<rparr>)"
  proof (cases "?n = 0")
    case True
    then show ?thesis using d by (simp add: os_Read_def)
  next
    case False
    then have "0 < ?n" and "?pos + ?n \<le> length c" using fit by simp_all
    then have "\<not> length c \<le> ?pos" by linarith
    then show ?thesis using d False ld by (simp add: os_Read_def Let_def mn)
  qed
  have cp: "copy_bytes (elems (buf p)) ?d = ?d" using ld by (intro copy_bytes_full) simp
  show ?thesis
    unfolding read_fm_def g using ld by (simp add: sk rd Let_def cp del: length_take)
qed

lemma write_fm_value:
  assumes g: "getFile w fm (filename blk) = Inr (f, w1, fm1)"
    and d: "disk w1 (fname f) = Some c"
    and off: "0 \<le>s blknum blk * blocksize fm"
    and lim: "nat (sint (blknum blk * blocksize fm)) + length (elems (buf p)) \<le> file_limit w"
  shows "write_fm w fm blk p =
     Inr (w1\<lparr>disk := (disk w1)(fname f \<mapsto>
              write_at c (nat (sint (blknum blk * blocksize fm))) (elems (buf p)))\<rparr>,
          store_file fm1 (filename blk)
            (f\<lparr>fpos := nat (sint (blknum blk * blocksize fm)) + length (elems (buf p))\<rparr>))"
proof -
  let ?pos = "nat (sint (blknum blk * blocksize fm))"
  have b1: "blocksize fm1 = blocksize fm" using g by (rule getFile_result)
  have l1: "file_limit w1 = file_limit w" using g by (rule getFile_result)
  have rng: "?pos \<le> file_limit w1" using lim l1 by linarith
  have sk: "snd (os_Seek w1 f (blknum blk * blocksize fm1)) = f\<lparr>fpos := ?pos\<rparr>"
    unfolding b1 using off rng by (rule seek_nonneg)
  have nl: "\<not> file_limit w1 < ?pos + length (elems (buf p))" using lim l1 by linarith
  have wr: "os_Write w1 (f\<lparr>fpos := ?pos\<rparr>) (elems (buf p)) =
      ((length (elems (buf p)), None), f\<lparr>fpos := ?pos + length (elems (buf p))\<rparr>,
       w1\<lparr>disk := (disk w1)(fname f \<mapsto> write_at c ?pos (elems (buf p)))\<rparr>)"
    using d nl by (simp add: os_Write_def)
  show ?thesis
    unfolding write_fm_def g by (simp add: sk wr Let_def)
qed

lemma test_getFile:
  "getFile test_world (test_manager bsize) ''testfile''
     = Inr (\<lparr>fname = ''dir/testfile'', fpos = 0\<rparr>,
            test_world\<lparr>disk := [''dir/testfile'' \<mapsto> []]\<rparr>,
            (test_manager bsize)\<lparr>files := [''testfile'' \<mapsto> \<lparr>fname = ''dir/testfile'', fpos = 0\<rparr>]\<rparr>)"
  by (simp add: getFile_def os_Create_def test_world_def test_manager_def)

text \<open>
  Claim C1, as the specification states it, fails: the first \<open>getFile\<close> for a file name
  calls \<open>os.Create\<close>, which truncates. A file of four bytes that exists before the manager
  opens it is empty afterwards, and the first \<open>length\<close> for it, with block size 4, returns
  0 and leaves it empty.
\<close>

theorem getFile_first_open_counterexample:
  "getFile (test_world\<lparr>disk := [''dir/testfile'' \<mapsto> [1, 2, 3, 4]]\<rparr>) (test_manager 4) ''testfile''
     = Inr (\<lparr>fname = ''dir/testfile'', fpos = 0\<rparr>,
            test_world\<lparr>disk := [''dir/testfile'' \<mapsto> []]\<rparr>,
            (test_manager 4)\<lparr>files := [''testfile'' \<mapsto> \<lparr>fname = ''dir/testfile'', fpos = 0\<rparr>]\<rparr>)
   \<and> length_fm (test_world\<lparr>disk := [''dir/testfile'' \<mapsto> [1, 2, 3, 4]]\<rparr>) (test_manager 4)
        ''testfile''
     = Inr (0, test_world\<lparr>disk := [''dir/testfile'' \<mapsto> []]\<rparr>,
            (test_manager 4)\<lparr>files := [''testfile'' \<mapsto> \<lparr>fname = ''dir/testfile'', fpos = 0\<rparr>]\<rparr>)"
  by (simp add: length_fm_def getFile_def os_Create_def os_Stat_def test_world_def
        test_manager_def)

text \<open>
  Claim C1, amended. A call of \<open>getFile\<close> for a file name that has an open file in the
  manager returns that file and changes neither the file system nor the manager. The
  first call for a file name, when it returns, has created the file or truncated it: the
  file is empty afterwards, whatever it held before, its offset is 0, every other file
  is as it was, and the manager has recorded the open file under the name.
\<close>

theorem getFile_first_open:
  "(files fm name = Some f \<longrightarrow> getFile w fm name = Inr (f, w, fm))
   \<and> (files fm name = None \<and> directory fm = Some d
        \<and> create_error w (path_Join w (fname d) name) = None \<longrightarrow>
        (\<exists>f' w' fm'. getFile w fm name = Inr (f', w', fm')
           \<and> fname f' = path_Join w (fname d) name \<and> fpos f' = 0
           \<and> disk w' (fname f') = Some []
           \<and> (\<forall>q. q \<noteq> fname f' \<longrightarrow> disk w' q = disk w q)
           \<and> files fm' = (files fm)(name \<mapsto> f')
           \<and> blocksize fm' = blocksize fm \<and> directory fm' = directory fm))
   \<and> (files fm name = None \<and> directory fm = Some d
        \<and> create_error w (path_Join w (fname d) name) = Some err \<longrightarrow>
        getFile w fm name = Inl (PanicError err))
   \<and> (files fm name = None \<and> directory fm = None \<longrightarrow>
        getFile w fm name = Inl NilPointerDereference)"
  by (simp add: getFile_def os_Create_def)

theorem getFile_first_open_witness:
  "getFile test_world
     ((test_manager 4)\<lparr>files := [''testfile'' \<mapsto> \<lparr>fname = ''dir/testfile'', fpos = 4\<rparr>]\<rparr>)
     ''testfile''
     = Inr (\<lparr>fname = ''dir/testfile'', fpos = 4\<rparr>, test_world,
            (test_manager 4)\<lparr>files := [''testfile'' \<mapsto> \<lparr>fname = ''dir/testfile'', fpos = 4\<rparr>]\<rparr>)
   \<and> (\<exists>f' w' fm'.
        getFile (test_world\<lparr>disk := [''dir/testfile'' \<mapsto> [1, 2, 3, 4]]\<rparr>) (test_manager 4)
          ''testfile'' = Inr (f', w', fm')
        \<and> fname f' = ''dir/testfile'' \<and> disk w' (fname f') = Some [])"
  using getFile_first_open
    [of "(test_manager 4)\<lparr>files := [''testfile'' \<mapsto> \<lparr>fname = ''dir/testfile'', fpos = 4\<rparr>]\<rparr>"
      "''testfile''" "\<lparr>fname = ''dir/testfile'', fpos = 4\<rparr>" test_world]
    getFile_first_open
    [of "test_manager 4" "''testfile''" _
      "test_world\<lparr>disk := [''dir/testfile'' \<mapsto> [1, 2, 3, 4]]\<rparr>"
      "\<lparr>fname = ''dir'', fpos = 0\<rparr>"]
  by (simp add: test_world_def test_manager_def) blast

text \<open>
  Claim C3, as the specification states it, fails: \<open>length\<close> divides and returns. With
  block size 4, \<open>write\<close> of a page of five bytes to block 0 of a new file leaves a file of
  five bytes, and \<open>length\<close> then returns 1 and reports nothing.
\<close>

theorem length_fm_counterexample:
  "write_fm test_world (test_manager 4) \<lparr>filename = ''testfile'', blknum = 0\<rparr>
      \<lparr>buf = \<lparr>elems = [1, 2, 3, 4, 5], spare = []\<rparr>\<rparr>
     = Inr (test_world\<lparr>disk := [''dir/testfile'' \<mapsto> [1, 2, 3, 4, 5]]\<rparr>,
            (test_manager 4)\<lparr>files := [''testfile'' \<mapsto> \<lparr>fname = ''dir/testfile'', fpos = 5\<rparr>]\<rparr>)
   \<and> length_fm (test_world\<lparr>disk := [''dir/testfile'' \<mapsto> [1, 2, 3, 4, 5]]\<rparr>)
        ((test_manager 4)\<lparr>files := [''testfile'' \<mapsto> \<lparr>fname = ''dir/testfile'', fpos = 5\<rparr>]\<rparr>)
        ''testfile''
     = Inr (1, test_world\<lparr>disk := [''dir/testfile'' \<mapsto> [1, 2, 3, 4, 5]]\<rparr>,
            (test_manager 4)\<lparr>files := [''testfile'' \<mapsto> \<lparr>fname = ''dir/testfile'', fpos = 5\<rparr>]\<rparr>)"
proof -
  have five: "Suc (Suc (Suc (Suc (Suc 0)))) = 5" by simp
  show ?thesis
    by (simp add: write_fm_def length_fm_def getFile_def os_Create_def os_Seek_def os_Write_def
          os_Stat_def write_at_def store_file_def test_world_def test_manager_def Let_def
          file_limit_def word_sless_alt signed_divide_int_def five)
qed

text \<open>
  Claim C3, amended. For every managed file that \<open>getFile\<close> opens, of size \<open>c\<close> below
  \<open>2^63\<close>, and every positive block size \<open>b\<close>: \<open>length\<close> returns the quotient
  \<open>c div b\<close> of the integer division, whether or not \<open>c\<close> is a multiple of \<open>b\<close>; a
  remainder is discarded and no error is reported.
\<close>

theorem length_fm_quotient:
  assumes "getFile w fm name = Inr (f, w1, fm1)"
    and "disk w1 (fname f) = Some c"
    and "length c < 2 ^ 63"
    and "0 <s blocksize fm"
  shows "length_fm w fm name =
     Inr (word_of_nat (length c div nat (sint (blocksize fm))), w1, fm1)"
  using assms by (rule length_fm_value)

theorem length_fm_quotient_witness:
  "length_fm (test_world\<lparr>disk := [''dir/testfile'' \<mapsto> replicate 9 0]\<rparr>)
     ((test_manager 4)\<lparr>files := [''testfile'' \<mapsto> \<lparr>fname = ''dir/testfile'', fpos = 9\<rparr>]\<rparr>)
     ''testfile''
   = Inr (2, test_world\<lparr>disk := [''dir/testfile'' \<mapsto> replicate 9 0]\<rparr>,
          (test_manager 4)\<lparr>files := [''testfile'' \<mapsto> \<lparr>fname = ''dir/testfile'', fpos = 9\<rparr>]\<rparr>)"
proof -
  let ?f = "\<lparr>fname = ''dir/testfile'', fpos = 9\<rparr>"
  let ?w = "test_world\<lparr>disk := [''dir/testfile'' \<mapsto> replicate 9 0]\<rparr>"
  let ?fm = "(test_manager 4)\<lparr>files := [''testfile'' \<mapsto> ?f]\<rparr>"
  have g: "getFile ?w ?fm ''testfile'' = Inr (?f, ?w, ?fm)" by (simp add: getFile_def)
  have d: "disk ?w (fname ?f) = Some (replicate 9 0)" by simp
  have l: "length (replicate 9 (0 :: byte)) < 2 ^ 63" by simp
  have p: "0 <s blocksize ?fm" by (simp add: test_manager_def word_sless_alt)
  from length_fm_quotient [OF g d l p] show ?thesis by (simp add: test_manager_def)
qed

text \<open>
  Claim C4 (the code departs from it): when the first \<open>os.Open\<close> reports that the
  directory does not exist, \<open>os.Mkdir\<close> reports that it exists (or succeeds) and the second
  \<open>os.Open\<close> fails, \<open>newFileManager\<close> returns a manager whose directory is nil: the
  error of the second \<open>os.Open\<close> is discarded.
\<close>

theorem newFileManager_nil_directory:
  "newFileManager \<lparr>open_dir = Some ErrNotExist, mkdir_dir = Some ErrExist,
                    reopen_dir = Some ErrNotExist\<rparr> dir bsize
     = Inr \<lparr>directory = None, blocksize = bsize, files = Map.empty\<rparr>"
  by (simp add: newFileManager_def)

text \<open>
  In every other case the manager returned has a directory; with the nil directory the
  first use of a file panics, as the self-test does on its \<open>write\<close>.
\<close>

lemma newFileManager_result:
  assumes "newFileManager os dir bsize = Inr fm"
  shows "blocksize fm = bsize" and "files fm = Map.empty"
    and "directory fm = None \<longleftrightarrow> open_dir os = Some ErrNotExist \<and> reopen_dir os \<noteq> None"
  using assms
  by (auto simp: newFileManager_def split: option.splits if_splits)

lemma getFile_nil_directory:
  "directory fm = None \<Longrightarrow> files fm name = None \<Longrightarrow>
     getFile w fm name = Inl NilPointerDereference"
  by (simp add: getFile_def)

lemma testFileManager_nil_directory:
  "testFileManager \<lparr>open_dir = Some ErrNotExist, mkdir_dir = Some ErrExist,
                     reopen_dir = Some ErrNotExist\<rparr> w = Some NilPointerDereference"
proof -
  let ?os = "\<lparr>open_dir = Some ErrNotExist, mkdir_dir = Some ErrExist,
              reopen_dir = Some ErrNotExist\<rparr>"
  let ?fm = "\<lparr>directory = None, blocksize = 400, files = Map.empty\<rparr>"
  let ?p1 = "\<lparr>buf = \<lparr>elems = replicate 400 0, spare = []\<rparr>\<rparr>"
  let ?s = "''abcdefghijklm''"
  let ?bs = "bytes_of_string ?s"
  let ?E1 = "put_at (put_at (replicate 400 0) 88 (PutUint32 13)) 92 ?bs"
  let ?p1a = "\<lparr>buf = \<lparr>elems = ?E1, spare = []\<rparr>\<rparr>"
  let ?E2 = "put_at ?E1 105 (PutUint32 4096)"
  let ?p1b = "\<lparr>buf = \<lparr>elems = ?E2, spare = []\<rparr>\<rparr>"
  have fm: "newFileManager ?os ''file-manager-test-dir'' 400 = Inr ?fm"
    by (simp add: newFileManager_def)
  have np: "newPage 400 = Inr ?p1"
    by (simp add: newPage_def make_bytes_def maxAlloc_def)
  have lbs: "length ?bs = 13" by (simp add: length_bytes_of_string)
  have s1: "setBytes ?p1 88 ?bs = (None, ?p1a)"
    using setBytes_ok [of 88 ?bs ?p1] by (simp add: lbs)
  have l1: "length ?E1 = 400"
    by (simp add: length_put_at length_PutUint32 lbs)
  have s2: "setInt ?p1a 105 4096 = (None, ?p1b)"
    using setInt_ok [of 105 ?p1a 4096] by (simp add: l1)
  have pos2: "88 + maxLength ?s = (105 :: int32)"
    by (simp add: maxLength_def int32size_def)
  have wr: "write_fm w ?fm \<lparr>filename = ''testfile'', blknum = 2\<rparr> ?p1b
              = Inl NilPointerDereference"
    by (simp add: write_fm_def getFile_def)
  show ?thesis
    unfolding testFileManager_def fm
    by (simp add: newBlockID_def np setString_def s1 pos2 s2 wr Let_def)
qed

subsection \<open>Calls that spare a block\<close>

text \<open>
  What a call that returns has done to the file system and the manager, and that a block
  of zero bytes stays one under every call that spares it.
\<close>

lemma sint_mult64:
  assumes "0 \<le> sint a" and "0 \<le> sint b" and "sint a * sint b < 2 ^ 63"
  shows "sint (a * b :: go_int) = sint a * sint b"
proof -
  have "0 \<le> sint a * sint b" using assms(1,2) by simp
  then have "signed_take_bit 63 (sint a * sint b) = sint a * sint b"
    using assms(3) by (simp add: signed_take_bit_int_eq_self)
  then show ?thesis by (simp add: sint_word_ariths)
qed

lemma block_of_length:
  assumes "block_of c n B = replicate B z" and "0 < B"
  shows "n * B + B \<le> length c"
proof -
  have "length (block_of c n B) = B" using assms(1) by simp
  then show ?thesis using assms(2) by (simp add: block_of_def min_def split: if_splits)
qed

lemma length_write_at: "length c \<le> length (write_at c pos b)"
  by (auto simp: write_at_def min_def)

lemma nth_write_at_zeros:
  assumes "i < length c"
  shows "write_at c pos (replicate m 0) ! i = c ! i \<or> write_at c pos (replicate m 0) ! i = 0"
proof (cases "m = 0")
  case True
  then show ?thesis by (simp add: write_at_def)
next
  case False
  let ?pre = "take pos c @ replicate (pos - length c) 0"
  have l: "length ?pre = pos" by (simp add: min_def)
  have w: "write_at c pos (replicate m 0) = ?pre @ replicate m 0 @ drop (pos + m) c"
    using False by (simp add: write_at_def)
  consider "i < pos" | "pos \<le> i" "i < pos + m" | "pos + m \<le> i" by linarith
  then show ?thesis
  proof cases
    case 1
    then have "(?pre @ replicate m 0 @ drop (pos + m) c) ! i = ?pre ! i"
      using l by (simp only: nth_append) simp
    also have "\<dots> = c ! i" using 1 assms by (simp add: nth_append)
    finally show ?thesis unfolding w by simp
  next
    case 2
    then have "(?pre @ replicate m 0 @ drop (pos + m) c) ! i
        = (replicate m 0 @ drop (pos + m) c) ! (i - pos)"
      using l by (simp only: nth_append) simp
    also have "\<dots> = 0"
    proof -
      have "i - pos < m" using 2 by linarith
      then show ?thesis by (simp add: nth_append)
    qed
    finally show ?thesis unfolding w by simp
  next
    case 3
    then have "(?pre @ replicate m 0 @ drop (pos + m) c) ! i
        = (replicate m 0 @ drop (pos + m) c) ! (i - pos)"
      using l by (simp only: nth_append) simp
    also have "\<dots> = drop (pos + m) c ! (i - pos - m)"
    proof -
      have "\<not> i - pos < m" using 3 by linarith
      then show ?thesis by (simp add: nth_append)
    qed
    also have "\<dots> = c ! i" using 3 assms by simp
    finally show ?thesis unfolding w by simp
  qed
qed

lemma block_of_write_zeros:
  assumes "block_of c n B = replicate B 0" and "0 < B"
  shows "block_of (write_at c pos (replicate m 0)) n B = replicate B 0"
proof -
  let ?r = "write_at c pos (replicate m 0)"
  have lc: "n * B + B \<le> length c" using assms by (rule block_of_length)
  have lr: "n * B + B \<le> length ?r" using lc length_write_at [of c pos "replicate m 0"] by linarith
  have z: "c ! (n * B + i) = 0" if "i < B" for i
  proof -
    have "block_of c n B ! i = c ! (n * B + i)"
      using that lc by (simp add: block_of_def)
    then show ?thesis using assms(1) that by simp
  qed
  show ?thesis
  proof (rule nth_equalityI)
    show "length (block_of ?r n B) = length (replicate B (0 :: byte))"
      using lr by (simp add: block_of_def)
  next
    fix i assume "i < length (block_of ?r n B)"
    then have i: "i < B" by (simp add: block_of_def)
    have "block_of ?r n B ! i = ?r ! (n * B + i)"
      using i lr by (simp add: block_of_def)
    also have "\<dots> = 0"
      using nth_write_at_zeros [of "n * B + i" c pos m] z [OF i] i lc by auto
    finally show "block_of ?r n B ! i = replicate B 0 ! i" using i by simp
  qed
qed

lemma block_of_write_other:
  assumes "k \<noteq> n" and "length d \<le> B" and "n * B + B \<le> length c"
  shows "block_of (write_at c (k * B) d) n B = block_of c n B"
proof (cases "d = []")
  case True
  then show ?thesis by (simp add: write_at_def)
next
  case False
  let ?pos = "k * B"
  let ?X = "take ?pos c @ replicate (?pos - length c) 0 @ d"
  have w: "write_at c ?pos d = ?X @ drop (?pos + length d) c"
    using False by (simp add: write_at_def)
  have lX: "length ?X = ?pos + length d" by (simp add: min_def)
  show ?thesis
  proof (cases "k < n")
    case True
    then have "k + 1 \<le> n" by simp
    then have "(k + 1) * B \<le> n * B" by (rule mult_le_mono1)
    then have le: "?pos + length d \<le> n * B" using assms(2) by simp
    have "drop (n * B) (?X @ drop (?pos + length d) c)
        = drop (n * B - (?pos + length d)) (drop (?pos + length d) c)"
      using le lX by (simp only: drop_append) simp
    also have "\<dots> = drop (n * B) c" using le by simp
    finally show ?thesis unfolding w block_of_def by simp
  next
    case False
    with assms(1) have "n + 1 \<le> k" by simp
    then have "(n + 1) * B \<le> k * B" by (rule mult_le_mono1)
    then have ge: "n * B + B \<le> ?pos" by simp
    have t: "take B (drop (n * B) xs) = drop (n * B) (take (n * B + B) xs)" for xs :: "byte list"
      by (simp add: drop_take add.commute)
    have "take (n * B + B) (write_at c ?pos d) = take (n * B + B) (take ?pos c)"
      unfolding w using ge assms(3) by simp
    also have "\<dots> = take (n * B + B) c" using ge by (simp add: min_def)
    finally show ?thesis unfolding block_of_def t by simp
  qed
qed

lemma os_Write_ok:
  assumes "os_Write w g d = ((n, None), g2, w2)"
  shows "\<exists>c. disk w (fname g) = Some c
           \<and> w2 = w\<lparr>disk := (disk w)(fname g \<mapsto> write_at c (fpos g) d)\<rparr>
           \<and> fname g2 = fname g"
  using assms by (auto simp: os_Write_def split: option.splits if_splits)

lemma os_Read_fname: "fname (snd (os_Read w f n)) = fname f"
  by (simp add: os_Read_def Let_def split: option.splits)

lemma length_fm_inv:
  assumes "length_fm w fm name = Inr (n, w', fm')"
  shows "\<exists>g. getFile w fm name = Inr (g, w', fm')"
  using assms by (auto simp: length_fm_def split: sum.splits if_splits)

lemma read_fm_inv:
  assumes "read_fm w fm b p = Inr (p', w', fm')"
  shows "\<exists>g fm1 g2. getFile w fm (filename b) = Inr (g, w', fm1)
           \<and> fm' = store_file fm1 (filename b) g2 \<and> fname g2 = fname g"
proof -
  obtain g w1 fm1 where g: "getFile w fm (filename b) = Inr (g, w1, fm1)"
    using assms by (auto simp: read_fm_def split: sum.splits)
  let ?g1 = "snd (os_Seek w1 g (blknum b * blocksize fm1))"
  let ?r = "os_Read w1 ?g1 (length (elems (buf p)))"
  have f: "fname (snd ?r) = fname g" by (simp add: os_Read_fname seek_fname)
  obtain d err g2 where r: "?r = ((d, err), g2)" by (metis surj_pair)
  from assms have "w' = w1 \<and> fm' = store_file fm1 (filename b) g2"
    unfolding read_fm_def g using r
    by (simp add: Let_def split: option.splits if_splits)
  with g f r show ?thesis by auto
qed

lemma write_fm_inv:
  assumes "write_fm w fm b p = Inr (w', fm')"
  shows "\<exists>g w1 fm1 g2 c. getFile w fm (filename b) = Inr (g, w1, fm1)
           \<and> disk w1 (fname g) = Some c
           \<and> w' = w1\<lparr>disk := (disk w1)(fname g \<mapsto>
                    write_at c (fpos (snd (os_Seek w1 g (blknum b * blocksize fm1))))
                      (elems (buf p)))\<rparr>
           \<and> fm' = store_file fm1 (filename b) g2 \<and> fname g2 = fname g"
proof -
  obtain g w1 fm1 where g: "getFile w fm (filename b) = Inr (g, w1, fm1)"
    using assms by (auto simp: write_fm_def split: sum.splits)
  let ?g1 = "snd (os_Seek w1 g (blknum b * blocksize fm1))"
  obtain n err g2 w2 where r: "os_Write w1 ?g1 (elems (buf p)) = ((n, err), g2, w2)"
    by (metis surj_pair)
  from assms have e: "err = None" and w: "w' = w2" and fm: "fm' = store_file fm1 (filename b) g2"
    unfolding write_fm_def g using r
    by (simp_all add: Let_def split: option.splits if_splits)
  from os_Write_ok [OF r [unfolded e]] obtain c where
    "disk w1 (fname ?g1) = Some c"
    "w2 = w1\<lparr>disk := (disk w1)(fname ?g1 \<mapsto> write_at c (fpos ?g1) (elems (buf p)))\<rparr>"
    "fname g2 = fname ?g1" by blast
  with g w fm show ?thesis by (auto simp: seek_fname)
qed

lemma append_fm_inv:
  assumes "append_fm w fm name = Inr (blk, w', fm')"
  shows "\<exists>g w1 fm1 g2 c pos m. getFile w fm name = Inr (g, w1, fm1)
           \<and> disk w1 (fname g) = Some c
           \<and> w' = w1\<lparr>disk := (disk w1)(fname g \<mapsto> write_at c pos (replicate m 0))\<rparr>
           \<and> fm' = store_file fm1 name g2 \<and> fname g2 = fname g"
proof -
  obtain n w1 fm1 where l: "length_fm w fm name = Inr (n, w1, fm1)"
    using assms by (auto simp: append_fm_def split: sum.splits)
  then obtain g where g: "getFile w fm name = Inr (g, w1, fm1)"
    using length_fm_inv by blast
  have g1: "getFile w1 fm1 name = Inr (g, w1, fm1)" using g by (rule getFile_again)
  obtain bb where mk: "make_bytes (sint (blocksize fm1)) = Inr bb"
    using assms unfolding append_fm_def l by (auto simp: Let_def split: sum.splits)
  then have bb: "elems bb = replicate (nat (sint (blocksize fm1))) 0"
    by (auto simp: make_bytes_def split: if_splits)
  let ?g1 = "snd (os_Seek w1 g (n * blocksize fm1))"
  obtain k err g2 w2 where r: "os_Write w1 ?g1 (elems bb) = ((k, err), g2, w2)"
    by (metis surj_pair)
  from assms have e: "err = None" and w: "w' = w2" and fm: "fm' = store_file fm1 name g2"
    unfolding append_fm_def l using r mk g1
    by (simp_all add: Let_def newBlockID_def split: option.splits if_splits)
  from os_Write_ok [OF r [unfolded e]] obtain c where
    "disk w1 (fname ?g1) = Some c"
    "w2 = w1\<lparr>disk := (disk w1)(fname ?g1 \<mapsto> write_at c (fpos ?g1) (elems bb))\<rparr>"
    "fname g2 = fname ?g1" by blast
  with g w fm bb show ?thesis by (auto simp: seek_fname)
qed

lemma store_file_same: "files fm name = Some g \<Longrightarrow> store_file fm name g = fm"
  by (simp add: store_file_def fun_upd_idem)

lemma call_fm_inv:
  assumes "call_fm w fm cl = Inr (w', fm')"
  shows "\<exists>g w1 fm1 g2. getFile w fm (call_name cl) = Inr (g, w1, fm1)
           \<and> fm' = store_file fm1 (call_name cl) g2 \<and> fname g2 = fname g
           \<and> (w' = w1
              \<or> (\<exists>c pos m. disk w1 (fname g) = Some c
                    \<and> w' = w1\<lparr>disk := (disk w1)(fname g \<mapsto> write_at c pos (replicate m 0))\<rparr>)
              \<or> (\<exists>c b p. cl = Write b p \<and> disk w1 (fname g) = Some c
                    \<and> w' = w1\<lparr>disk := (disk w1)(fname g \<mapsto>
                          write_at c (fpos (snd (os_Seek w1 g (blknum b * blocksize fm1))))
                            (elems (buf p)))\<rparr>))"
proof (cases cl)
  case (Read b p)
  with assms obtain p' where "read_fm w fm b p = Inr (p', w', fm')"
    by (auto simp: call_fm_def split: sum.splits)
  from read_fm_inv [OF this] show ?thesis using Read by (auto simp: call_name_def)
next
  case (Write b p)
  with assms have "write_fm w fm b p = Inr (w', fm')" by (simp add: call_fm_def)
  from write_fm_inv [OF this] show ?thesis using Write by (auto simp: call_name_def)
next
  case (Append name)
  with assms obtain blk where "append_fm w fm name = Inr (blk, w', fm')"
    by (auto simp: call_fm_def split: sum.splits)
  from append_fm_inv [OF this] obtain g w1 fm1 g2 c pos m where
    "getFile w fm name = Inr (g, w1, fm1)" "disk w1 (fname g) = Some c"
    "w' = w1\<lparr>disk := (disk w1)(fname g \<mapsto> write_at c pos (replicate m 0))\<rparr>"
    "fm' = store_file fm1 name g2" "fname g2 = fname g" by blast
  then show ?thesis unfolding Append call_name_def by (simp only: call.case) blast
next
  case (Length name)
  with assms obtain n where "length_fm w fm name = Inr (n, w', fm')"
    by (auto simp: call_fm_def split: sum.splits)
  from length_fm_inv [OF this] obtain g where g: "getFile w fm name = Inr (g, w', fm')" by blast
  then have "files fm' name = Some g" by (rule getFile_result)
  then have "fm' = store_file fm' name g" by (simp add: store_file_same)
  with g show ?thesis using Length by (auto simp: call_name_def)
qed

lemma getFile_keeps:
  assumes "getFile w fm nm = Inr (g, w1, fm1)" and "files fm f = Some h"
    and "\<not> (files fm nm = None \<and> file_of w fm nm = Some (fname h))"
  shows "disk w1 (fname h) = disk w (fname h)" and "file_of w fm nm = Some (fname g)"
    and "files fm1 = (files fm)(nm \<mapsto> g)"
  using assms
  by (auto simp: getFile_def os_Create_def file_of_def split: option.splits)

lemma zero_blockD:
  assumes "zero_block w fm blk"
  shows "\<exists>h c. files fm (filename blk) = Some h \<and> disk w (fname h) = Some c
           \<and> block_of c (nat (sint (blknum blk))) (nat (sint (blocksize fm)))
               = replicate (nat (sint (blocksize fm))) 0"
  using assms by (auto simp: zero_block_def split: option.splits)

lemma zero_blockI:
  assumes "files fm (filename blk) = Some h" and "disk w (fname h) = Some c"
    and "block_of c (nat (sint (blknum blk))) (nat (sint (blocksize fm)))
           = replicate (nat (sint (blocksize fm))) 0"
  shows "zero_block w fm blk"
  using assms by (simp add: zero_block_def)

lemma seek_block:
  assumes "in_range w fm b" and "0 < sint (blocksize fm)"
  shows "snd (os_Seek w g (blknum b * blocksize fm))
           = g\<lparr>fpos := nat (sint (blknum b)) * nat (sint (blocksize fm))\<rparr>"
proof -
  have k: "0 \<le> sint (blknum b)" and le: "sint (blknum b) * sint (blocksize fm) \<le> int (file_limit w)"
    using assms(1) by (simp_all add: in_range_def)
  have "int (file_limit w) < 2 ^ 63" using file_limit_less [of w] by simp
  with le have lt: "sint (blknum b) * sint (blocksize fm) < 2 ^ 63" by linarith
  have p: "sint (blknum b * blocksize fm) = sint (blknum b) * sint (blocksize fm)"
    using k assms(2) lt by (intro sint_mult64) simp_all
  have "0 \<le> sint (blknum b) * sint (blocksize fm)" using k assms(2) by simp
  then have "sint (0 :: go_int) \<le> sint (blknum b * blocksize fm)" unfolding p by simp
  then have off: "0 \<le>s blknum b * blocksize fm" by (simp only: word_sle_eq)
  have n: "nat (sint (blknum b * blocksize fm))
             = nat (sint (blknum b)) * nat (sint (blocksize fm))"
    unfolding p using k by (simp add: nat_mult_distrib)
  have "nat (sint (blknum b * blocksize fm)) \<le> file_limit w"
    unfolding p using le by linarith
  with off have "snd (os_Seek w g (blknum b * blocksize fm))
      = g\<lparr>fpos := nat (sint (blknum b * blocksize fm))\<rparr>" by (rule seek_nonneg)
  then show ?thesis unfolding n .
qed

lemma call_keeps_zero_block:
  assumes z: "zero_block w fm blk"
    and B: "0 < sint (blocksize fm)"
    and n0: "0 \<le> sint (blknum blk)"
    and sp: "spares w fm blk cl"
    and st: "call_fm w fm cl = Inr (w', fm')"
  shows "zero_block w' fm' blk" and "blocksize fm' = blocksize fm"
    and "file_limit w' = file_limit w"
proof -
  let ?B = "nat (sint (blocksize fm))"
  let ?n = "nat (sint (blknum blk))"
  let ?nm = "call_name cl"
  let ?f = "filename blk"
  from zero_blockD [OF z] obtain h c where h: "files fm ?f = Some h"
    and d: "disk w (fname h) = Some c"
    and zb: "block_of c ?n ?B = replicate ?B 0" by blast
  have Bp: "0 < ?B" using B by simp
  have lc: "?n * ?B + ?B \<le> length c" using zb Bp by (rule block_of_length)
  have fh: "file_of w fm ?f = Some (fname h)" using h by (simp add: file_of_def)
  from call_fm_inv [OF st] obtain g w1 fm1 g2 where
    g: "getFile w fm ?nm = Inr (g, w1, fm1)"
    and fm': "fm' = store_file fm1 ?nm g2" and g2: "fname g2 = fname g"
    and w': "w' = w1
       \<or> (\<exists>c pos m. disk w1 (fname g) = Some c
             \<and> w' = w1\<lparr>disk := (disk w1)(fname g \<mapsto> write_at c pos (replicate m 0))\<rparr>)
       \<or> (\<exists>c b p. cl = Write b p \<and> disk w1 (fname g) = Some c
             \<and> w' = w1\<lparr>disk := (disk w1)(fname g \<mapsto>
                   write_at c (fpos (snd (os_Seek w1 g (blknum b * blocksize fm1))))
                     (elems (buf p)))\<rparr>)"
    by blast
  have nt: "\<not> (files fm ?nm = None \<and> file_of w fm ?nm = Some (fname h))"
    using sp fh by (simp add: spares_def)
  have d1: "disk w1 (fname h) = Some c"
    using getFile_keeps(1) [OF g h nt] d by simp
  have fo: "file_of w fm ?nm = Some (fname g)" using g h nt by (rule getFile_keeps)
  have fs: "files fm1 = (files fm)(?nm \<mapsto> g)" using g h nt by (rule getFile_keeps)
  have b1: "blocksize fm1 = blocksize fm" using g by (rule getFile_result)
  have l1: "file_limit w1 = file_limit w" using g by (rule getFile_result)
  show bs: "blocksize fm' = blocksize fm" unfolding fm' by (simp add: store_file_simps b1)
  have lw: "file_limit (w1\<lparr>disk := x\<rparr>) = file_limit w" for x
    using l1 by (simp add: file_limit_def)
  show "file_limit w' = file_limit w" using w' l1 lw by auto
  have same: "fname g = fname h" if "?nm = ?f"
  proof -
    have "getFile w fm ?nm = Inr (h, w, fm)" unfolding that using h by (rule getFile_hit)
    with g show ?thesis by simp
  qed
  obtain h' where h': "files fm' ?f = Some h'" and fh': "fname h' = fname h"
  proof (cases "?nm = ?f")
    case True
    then have "files fm' ?f = Some g2" unfolding fm' by (simp add: store_file_def)
    moreover have "fname g2 = fname h" using g2 same [OF True] by simp
    ultimately show ?thesis using that by blast
  next
    case False
    then have "files fm' ?f = Some h" unfolding fm' using fs h by (simp add: store_file_def)
    then show ?thesis using that by blast
  qed
  have "\<exists>c'. disk w' (fname h) = Some c' \<and> block_of c' ?n ?B = replicate ?B 0"
    using w'
  proof (elim disjE exE conjE)
    assume "w' = w1"
    then show ?thesis using d1 zb by simp
  next
    fix c0 pos m
    assume c0: "disk w1 (fname g) = Some c0"
      and e: "w' = w1\<lparr>disk := (disk w1)(fname g \<mapsto> write_at c0 pos (replicate m 0))\<rparr>"
    show ?thesis
    proof (cases "fname g = fname h")
      case True
      then have "c0 = c" using c0 d1 by simp
      then show ?thesis using e True block_of_write_zeros [OF zb Bp] by simp
    next
      case False
      then show ?thesis using e d1 zb by simp
    qed
  next
    fix c0 b p
    assume cl: "cl = Write b p" and c0: "disk w1 (fname g) = Some c0"
      and e: "w' = w1\<lparr>disk := (disk w1)(fname g \<mapsto>
                   write_at c0 (fpos (snd (os_Seek w1 g (blknum b * blocksize fm1))))
                     (elems (buf p)))\<rparr>"
    show ?thesis
    proof (cases "fname g = fname h")
      case True
      then have cc: "c0 = c" using c0 d1 by simp
      have nm: "?nm = filename b" using cl by (simp add: call_name_def)
      have "file_of w fm (filename b) = file_of w fm ?f" using fo fh True nm by simp
      then have k: "blknum b \<noteq> blknum blk" and r: "in_range w fm b"
        and len: "length (elems (buf p)) \<le> ?B"
        using sp cl by (simp_all add: spares_def)
      have r1: "in_range w1 fm1 b" using r l1 b1 by (simp add: in_range_def)
      have "0 < sint (blocksize fm1)" using B b1 by simp
      with r1 have
        "snd (os_Seek w1 g (blknum b * blocksize fm1))
           = g\<lparr>fpos := nat (sint (blknum b)) * nat (sint (blocksize fm1))\<rparr>"
        by (rule seek_block)
      then have pos: "fpos (snd (os_Seek w1 g (blknum b * blocksize fm1)))
          = nat (sint (blknum b)) * ?B" using b1 by simp
      have "0 \<le> sint (blknum b)" using r by (simp add: in_range_def)
      moreover have "sint (blknum b) \<noteq> sint (blknum blk)"
        using k signed_word_eqI [of "blknum b" "blknum blk"] by blast
      ultimately have kn: "nat (sint (blknum b)) \<noteq> ?n" using n0 by (simp add: nat_eq_iff)
      have "block_of (write_at c (nat (sint (blknum b)) * ?B) (elems (buf p))) ?n ?B
          = block_of c ?n ?B" using kn len lc by (rule block_of_write_other)
      then show ?thesis using e True pos cc zb by simp
    next
      case False
      then show ?thesis using e d1 zb by simp
    qed
  qed
  then obtain c' where "disk w' (fname h') = Some c'"
    and "block_of c' ?n (nat (sint (blocksize fm'))) = replicate (nat (sint (blocksize fm'))) 0"
    unfolding bs fh' by blast
  with h' show "zero_block w' fm' blk" by (rule zero_blockI)
qed

lemma calls_keep_zero_block:
  assumes "zero_block w fm blk" and "0 < sint (blocksize fm)" and "0 \<le> sint (blknum blk)"
    and "untouched w fm blk cs" and "calls_fm w fm cs = Inr (w', fm')"
  shows "zero_block w' fm' blk \<and> blocksize fm' = blocksize fm \<and> file_limit w' = file_limit w"
  using assms
proof (induction cs arbitrary: w fm)
  case Nil
  then show ?case by simp
next
  case (Cons cl cs)
  from Cons.prems(5) obtain w1 fm1 where st: "call_fm w fm cl = Inr (w1, fm1)"
    and rest: "calls_fm w1 fm1 cs = Inr (w', fm')"
    by (auto split: sum.splits)
  from Cons.prems(4) st have sp: "spares w fm blk cl" and un: "untouched w1 fm1 blk cs"
    by simp_all
  note k = call_keeps_zero_block [OF Cons.prems(1,2,3) sp st]
  have "0 < sint (blocksize fm1)" using k(2) Cons.prems(2) by simp
  from Cons.IH [OF k(1) this Cons.prems(3) un rest] k(2,3) show ?case by simp
qed

lemma read_zero_block:
  assumes z: "zero_block w fm blk" and B: "0 < sint (blocksize fm)"
    and r: "in_range w fm blk" and rw: "sint (blocksize fm) \<le> int maxRW"
    and len: "length (elems (buf p)) = nat (sint (blocksize fm))"
  shows "\<exists>p' fm3. read_fm w fm blk p = Inr (p', w, fm3)
           \<and> elems (buf p') = replicate (nat (sint (blocksize fm))) 0"
proof -
  let ?B = "nat (sint (blocksize fm))"
  let ?n = "nat (sint (blknum blk))"
  from zero_blockD [OF z] obtain h c where h: "files fm (filename blk) = Some h"
    and d: "disk w (fname h) = Some c"
    and zb: "block_of c ?n ?B = replicate ?B 0" by blast
  have Bp: "0 < ?B" using B by simp
  have lc: "?n * ?B + ?B \<le> length c" using zb Bp by (rule block_of_length)
  have k: "0 \<le> sint (blknum blk)"
    and le: "sint (blknum blk) * sint (blocksize fm) \<le> int (file_limit w)"
    using r by (simp_all add: in_range_def)
  have "int (file_limit w) < 2 ^ 63" using file_limit_less [of w] by simp
  with le have lt: "sint (blknum blk) * sint (blocksize fm) < 2 ^ 63" by linarith
  have p: "sint (blknum blk * blocksize fm) = sint (blknum blk) * sint (blocksize fm)"
    using k B lt by (intro sint_mult64) simp_all
  have "0 \<le> sint (blknum blk) * sint (blocksize fm)" using k B by simp
  then have "sint (0 :: go_int) \<le> sint (blknum blk * blocksize fm)" unfolding p by simp
  then have off: "0 \<le>s blknum blk * blocksize fm" by (simp only: word_sle_eq)
  have pos: "nat (sint (blknum blk * blocksize fm)) = ?n * ?B"
    unfolding p using k by (simp add: nat_mult_distrib)
  have rng: "nat (sint (blknum blk * blocksize fm)) \<le> file_limit w"
    unfolding p using le by linarith
  have "nat (sint (blknum blk * blocksize fm)) + length (elems (buf p)) \<le> length c"
    unfolding pos len using lc .
  then have fit: "elems (buf p) = []
      \<or> nat (sint (blknum blk * blocksize fm)) + length (elems (buf p)) \<le> length c" ..
  have mrw: "length (elems (buf p)) \<le> maxRW" unfolding len using rw by linarith
  note rd = read_fm_value [OF h d off rng fit mrw]
  have zz: "take (length (elems (buf p))) (drop (?n * ?B) c) = replicate ?B 0"
    using zb unfolding len block_of_def .
  note rd' = rd [unfolded pos zz]
  show ?thesis using rd' by simp
qed

text \<open>
  Claim C7, as the specification states it, fails in its last part: \<open>append\<close> writes
  its block at the offset \<open>length(f) * blocksize\<close>, which is not the end of a file whose
  size is no multiple of the block size. With block size 4, \<open>write\<close> of a page of five
  bytes to block 0 of a new file leaves a file of five bytes; \<open>append\<close> then returns
  block 1 and the file holds eight bytes: it has grown by three bytes, not by a block,
  and its fifth byte is overwritten.
\<close>

theorem append_grows_counterexample:
  "write_fm test_world (test_manager 4) \<lparr>filename = ''testfile'', blknum = 0\<rparr>
      \<lparr>buf = \<lparr>elems = [1, 2, 3, 4, 5], spare = []\<rparr>\<rparr>
     = Inr (test_world\<lparr>disk := [''dir/testfile'' \<mapsto> [1, 2, 3, 4, 5]]\<rparr>,
            (test_manager 4)\<lparr>files := [''testfile'' \<mapsto> \<lparr>fname = ''dir/testfile'', fpos = 5\<rparr>]\<rparr>)
   \<and> append_fm (test_world\<lparr>disk := [''dir/testfile'' \<mapsto> [1, 2, 3, 4, 5]]\<rparr>)
        ((test_manager 4)\<lparr>files := [''testfile'' \<mapsto> \<lparr>fname = ''dir/testfile'', fpos = 5\<rparr>]\<rparr>)
        ''testfile''
     = Inr (\<lparr>filename = ''testfile'', blknum = 1\<rparr>,
            test_world\<lparr>disk := [''dir/testfile'' \<mapsto> [1, 2, 3, 4, 0, 0, 0, 0]]\<rparr>,
            (test_manager 4)\<lparr>files := [''testfile'' \<mapsto> \<lparr>fname = ''dir/testfile'', fpos = 8\<rparr>]\<rparr>)"
proof -
  have five: "Suc (Suc (Suc (Suc (Suc 0)))) = 5" by simp
  have r4: "replicate 4 (0 :: byte) = [0, 0, 0, 0]" by (simp add: numeral_eq_Suc)
  show ?thesis
    by (simp add: write_fm_def append_fm_def length_fm_def getFile_def os_Create_def
          os_Seek_def os_Write_def os_Stat_def write_at_def store_file_def make_bytes_def
          newBlockID_def maxAlloc_def file_limit_def test_world_def test_manager_def Let_def
          word_sless_alt signed_divide_int_def five r4)
qed

text \<open>
  Claim C7, amended. For every file name \<open>f\<close> that \<open>getFile\<close> opens, every positive
  block size within the allocation limit of \<open>make\<close>, and every file whose next block
  ends within the limit of the file system: \<open>length(f)\<close> returns a number \<open>n \<ge> 0\<close>;
  \<open>append(f)\<close>, called after it or instead of it, returns a BlockID with file name \<open>f\<close>
  and block number \<open>n\<close>; \<open>length(f)\<close> after the append returns \<open>n + 1\<close>, without
  wrap-around; and the file then holds its first \<open>n\<close> blocks followed by one block of
  zero bytes, every other file being as it was. The file has grown by exactly one block
  if and only if its size was a multiple of the block size, and then it holds its old
  contents followed by the block of zero bytes.
\<close>

theorem append_block_number:
  assumes "getFile w fm name = Inr (f, w1, fm1)"
    and "disk w1 (fname f) = Some c"
    and "0 <s blocksize fm"
    and "sint (blocksize fm) \<le> int maxAlloc"
    and "length c div nat (sint (blocksize fm)) * nat (sint (blocksize fm))
           + nat (sint (blocksize fm)) \<le> file_limit w"
  shows "\<exists>n blk w2 fm2 c2.
           length_fm w fm name = Inr (n, w1, fm1)
         \<and> append_fm w1 fm1 name = Inr (blk, w2, fm2)
         \<and> append_fm w fm name = Inr (blk, w2, fm2)
         \<and> filename blk = name \<and> blknum blk = n
         \<and> length_fm w2 fm2 name = Inr (n + 1, w2, fm2)
         \<and> 0 \<le> sint n \<and> sint (n + 1) = sint n + 1
         \<and> disk w2 (fname f) = Some c2
         \<and> (\<forall>q. q \<noteq> fname f \<longrightarrow> disk w2 q = disk w1 q)
         \<and> c2 = take (nat (sint n) * nat (sint (blocksize fm))) c
                  @ replicate (nat (sint (blocksize fm))) 0
         \<and> (length c2 = length c + nat (sint (blocksize fm))
              \<longleftrightarrow> nat (sint (blocksize fm)) dvd length c)
         \<and> (nat (sint (blocksize fm)) dvd length c
              \<longrightarrow> c2 = c @ replicate (nat (sint (blocksize fm))) 0)"
proof -
  let ?B = "nat (sint (blocksize fm))"
  let ?q = "length c div ?B"
  let ?c' = "take (?q * ?B) c @ replicate ?B 0"
  let ?f' = "f\<lparr>fpos := ?q * ?B + ?B\<rparr>"
  let ?blk = "\<lparr>filename = name, blknum = (word_of_nat ?q :: go_int)\<rparr>"
  let ?w2 = "w1\<lparr>disk := (disk w1)(fname f \<mapsto> ?c')\<rparr>"
  let ?fm2 = "store_file fm1 name ?f'"
  have B: "0 < ?B" using positive_blocksize(1) [OF assms(3)] .
  have b1: "blocksize fm1 = blocksize fm" using assms(1) by (rule getFile_result)
  have l1: "file_limit w1 = file_limit w" using assms(1) by (rule getFile_result)
  have g1: "getFile w1 fm1 name = Inr (f, w1, fm1)" using assms(1) by (rule getFile_again)
  have le: "?q * ?B \<le> length c" by (rule div_times_less_eq_dividend)
  have gt: "length c < ?q * ?B + ?B"
    using dividend_less_div_times [OF B, of "length c"] by (simp add: add.commute)
  have c63: "length c < 2 ^ 63"
    using gt assms(5) file_limit_less [of w] by linarith
  have len: "length_fm w fm name = Inr (word_of_nat ?q, w1, fm1)"
    using assms(1,2) c63 assms(3) by (rule length_fm_value)
  have app: "append_fm w fm name = Inr (?blk, ?w2, ?fm2)"
    using assms by (rule append_fm_value)
  have app1: "append_fm w1 fm1 name = Inr (?blk, ?w2, ?fm2)"
    using append_fm_value [OF g1 assms(2)] assms(3,4,5) b1 l1 by simp
  have lc: "length ?c' = (?q + 1) * ?B" using le by simp
  have "(?q + 1) * ?B = ?q * ?B + ?B" by simp
  then have lim': "length ?c' < 2 ^ 63"
    using assms(5) file_limit_less [of w] unfolding lc by linarith
  have g2: "getFile ?w2 ?fm2 name = Inr (?f', ?w2, ?fm2)"
    by (intro getFile_hit) (simp add: store_file_simps)
  have l2: "length_fm ?w2 ?fm2 name =
      Inr (word_of_nat (length ?c' div nat (sint (blocksize ?fm2))), ?w2, ?fm2)"
    using g2 _ lim'
    by (rule length_fm_value) (simp_all add: store_file_simps b1 assms(3))
  have b2: "blocksize ?fm2 = blocksize fm" by (simp add: store_file_simps b1)
  have dv: "length ?c' div ?B = ?q + 1"
    unfolding lc using B by simp
  have len2: "length_fm ?w2 ?fm2 name = Inr (word_of_nat ?q + 1, ?w2, ?fm2)"
    using l2 unfolding b2 dv by simp
  have one: "1 \<le> ?B" using B by linarith
  have "(?q + 1) * 1 \<le> (?q + 1) * ?B" using one by (rule mult_le_mono2)
  then have "?q + 1 \<le> (?q + 1) * ?B" by (simp only: mult.right_neutral)
  then have q1: "?q + 1 < 2 ^ 63" using lim' unfolding lc by linarith
  then have q0: "?q < 2 ^ 63" by simp
  have s0: "sint (word_of_nat ?q :: go_int) = int ?q" using q0 by (rule sint_of_nat64)
  have "sint (word_of_nat (?q + 1) :: go_int) = int (?q + 1)" using q1 by (rule sint_of_nat64)
  then have s1: "sint (word_of_nat ?q + 1 :: go_int) = int ?q + 1"
    by (simp add: add.commute)
  have nq: "nat (sint (word_of_nat ?q :: go_int)) = ?q" unfolding s0 by simp
  have d2: "disk ?w2 (fname f) = Some ?c'" by simp
  have oth: "\<forall>q. q \<noteq> fname f \<longrightarrow> disk ?w2 q = disk w1 q" by simp
  have md: "?q * ?B + length c mod ?B = length c" by (rule div_mult_mod_eq)
  have grow: "length ?c' = length c + ?B \<longleftrightarrow> ?B dvd length c"
  proof
    assume "length ?c' = length c + ?B"
    then have "?q * ?B = length c" using le by simp
    then show "?B dvd length c" by (metis dvd_triv_right)
  next
    assume "?B dvd length c"
    then have "length c mod ?B = 0" by simp
    with md have "?q * ?B = length c" by simp
    then show "length ?c' = length c + ?B" by simp
  qed
  have whole: "?B dvd length c \<longrightarrow> ?c' = c @ replicate ?B 0"
  proof
    assume "?B dvd length c"
    then have "length c mod ?B = 0" by simp
    with md have "?q * ?B = length c" by simp
    then show "?c' = c @ replicate ?B 0" by simp
  qed
  have shape: "?c' = take (nat (sint (word_of_nat ?q :: go_int)) * ?B) c @ replicate ?B 0"
    unfolding nq ..
  show ?thesis
  proof (intro exI conjI)
    show "length_fm w fm name = Inr (word_of_nat ?q, w1, fm1)" by (rule len)
    show "append_fm w1 fm1 name = Inr (?blk, ?w2, ?fm2)" by (rule app1)
    show "append_fm w fm name = Inr (?blk, ?w2, ?fm2)" by (rule app)
    show "filename ?blk = name" by simp
    show "blknum ?blk = word_of_nat ?q" by simp
    show "length_fm ?w2 ?fm2 name = Inr (word_of_nat ?q + 1, ?w2, ?fm2)" by (rule len2)
    show "0 \<le> sint (word_of_nat ?q :: go_int)" unfolding s0 by simp
    show "sint (word_of_nat ?q + 1 :: go_int) = sint (word_of_nat ?q :: go_int) + 1"
      unfolding s0 s1 ..
    show "disk ?w2 (fname f) = Some ?c'" by (rule d2)
    show "\<forall>q. q \<noteq> fname f \<longrightarrow> disk ?w2 q = disk w1 q" by (rule oth)
    show "?c' = take (nat (sint (word_of_nat ?q :: go_int)) * ?B) c @ replicate ?B 0"
      by (rule shape)
    show "length ?c' = length c + ?B \<longleftrightarrow> ?B dvd length c" by (rule grow)
    show "?B dvd length c \<longrightarrow> ?c' = c @ replicate ?B 0" by (rule whole)
  qed
qed

text \<open>
  The self-test of the program appends nothing; here the manager of block size 400
  appends the first block of a new file.
\<close>

theorem append_block_number_witness:
  "\<exists>f w1 fm1. getFile test_world (test_manager 400) ''testfile'' = Inr (f, w1, fm1)
     \<and> disk w1 (fname f) = Some []
     \<and> (\<exists>n blk w2 fm2.
           length_fm test_world (test_manager 400) ''testfile'' = Inr (n, w1, fm1)
         \<and> append_fm w1 fm1 ''testfile'' = Inr (blk, w2, fm2)
         \<and> append_fm test_world (test_manager 400) ''testfile'' = Inr (blk, w2, fm2)
         \<and> filename blk = ''testfile'' \<and> blknum blk = n
         \<and> length_fm w2 fm2 ''testfile'' = Inr (n + 1, w2, fm2)
         \<and> disk w2 (fname f) = Some (replicate 400 0))"
proof -
  let ?f = "\<lparr>fname = ''dir/testfile'', fpos = 0\<rparr>"
  let ?w1 = "test_world\<lparr>disk := [''dir/testfile'' \<mapsto> []]\<rparr>"
  have d: "disk ?w1 (fname ?f) = Some []" by simp
  have p: "0 <s blocksize (test_manager 400)"
    by (simp add: test_manager_def word_sless_alt)
  have a: "sint (blocksize (test_manager 400)) \<le> int maxAlloc"
    by (simp add: test_manager_def maxAlloc_def)
  have l: "length ([] :: byte list) div nat (sint (blocksize (test_manager 400)))
             * nat (sint (blocksize (test_manager 400)))
           + nat (sint (blocksize (test_manager 400))) \<le> file_limit test_world"
    by (simp add: test_manager_def test_world_def file_limit_def)
  have b: "nat (sint (blocksize (test_manager 400))) = 400"
    by (simp add: test_manager_def)
  from append_block_number [OF test_getFile d p a l] obtain n blk w2 fm2 c2 where
    r: "length_fm test_world (test_manager 400) ''testfile''
          = Inr (n, ?w1, (test_manager 400)\<lparr>files := [''testfile'' \<mapsto> ?f]\<rparr>)"
      "append_fm ?w1 ((test_manager 400)\<lparr>files := [''testfile'' \<mapsto> ?f]\<rparr>) ''testfile''
          = Inr (blk, w2, fm2)"
      "append_fm test_world (test_manager 400) ''testfile'' = Inr (blk, w2, fm2)"
      "filename blk = ''testfile''" "blknum blk = n"
      "length_fm w2 fm2 ''testfile'' = Inr (n + 1, w2, fm2)"
      "disk w2 (fname ?f) = Some c2"
    and whole: "nat (sint (blocksize (test_manager 400))) dvd length ([] :: byte list)
             \<longrightarrow> c2 = [] @ replicate (nat (sint (blocksize (test_manager 400)))) 0"
    by blast
  from whole have "c2 = replicate 400 0" unfolding b by simp
  with r test_getFile d show ?thesis by blast
qed

text \<open>
  Claim C8, as the specification states it, fails: a \<open>write\<close> to another block can
  change the block. With block size 2 the manager appends block 0 and block 1 to a new
  file and reads block 0, which leaves the offset of the file at block 1. A \<open>write\<close> to
  the block with number \<open>2^62\<close> of the file then seeks to the offset \<open>2^62 * 2\<close>, which
  wraps to \<open>-2^63\<close>; \<open>Seek\<close> refuses it, its result is not looked at, and the page is
  written at the offset of the file, over block 1. No \<open>write\<close> to block 1 has happened,
  and \<open>read\<close> of block 1 returns and fills the page with \<open>[1, 2]\<close>.
\<close>

theorem append_reads_zero_counterexample:
  "append_fm test_world (test_manager 2) ''testfile''
     = Inr (\<lparr>filename = ''testfile'', blknum = 0\<rparr>,
            test_world\<lparr>disk := [''dir/testfile'' \<mapsto> [0, 0]]\<rparr>,
            (test_manager 2)\<lparr>files := [''testfile'' \<mapsto> \<lparr>fname = ''dir/testfile'', fpos = 2\<rparr>]\<rparr>)
   \<and> append_fm (test_world\<lparr>disk := [''dir/testfile'' \<mapsto> [0, 0]]\<rparr>)
        ((test_manager 2)\<lparr>files := [''testfile'' \<mapsto> \<lparr>fname = ''dir/testfile'', fpos = 2\<rparr>]\<rparr>)
        ''testfile''
     = Inr (\<lparr>filename = ''testfile'', blknum = 1\<rparr>,
            test_world\<lparr>disk := [''dir/testfile'' \<mapsto> [0, 0, 0, 0]]\<rparr>,
            (test_manager 2)\<lparr>files := [''testfile'' \<mapsto> \<lparr>fname = ''dir/testfile'', fpos = 4\<rparr>]\<rparr>)
   \<and> read_fm (test_world\<lparr>disk := [''dir/testfile'' \<mapsto> [0, 0, 0, 0]]\<rparr>)
        ((test_manager 2)\<lparr>files := [''testfile'' \<mapsto> \<lparr>fname = ''dir/testfile'', fpos = 4\<rparr>]\<rparr>)
        \<lparr>filename = ''testfile'', blknum = 0\<rparr> \<lparr>buf = \<lparr>elems = [7, 7], spare = []\<rparr>\<rparr>
     = Inr (\<lparr>buf = \<lparr>elems = [0, 0], spare = []\<rparr>\<rparr>,
            test_world\<lparr>disk := [''dir/testfile'' \<mapsto> [0, 0, 0, 0]]\<rparr>,
            (test_manager 2)\<lparr>files := [''testfile'' \<mapsto> \<lparr>fname = ''dir/testfile'', fpos = 2\<rparr>]\<rparr>)
   \<and> write_fm (test_world\<lparr>disk := [''dir/testfile'' \<mapsto> [0, 0, 0, 0]]\<rparr>)
        ((test_manager 2)\<lparr>files := [''testfile'' \<mapsto> \<lparr>fname = ''dir/testfile'', fpos = 2\<rparr>]\<rparr>)
        \<lparr>filename = ''testfile'', blknum = 2 ^ 62\<rparr> \<lparr>buf = \<lparr>elems = [1, 2], spare = []\<rparr>\<rparr>
     = Inr (test_world\<lparr>disk := [''dir/testfile'' \<mapsto> [0, 0, 1, 2]]\<rparr>,
            (test_manager 2)\<lparr>files := [''testfile'' \<mapsto> \<lparr>fname = ''dir/testfile'', fpos = 4\<rparr>]\<rparr>)
   \<and> read_fm (test_world\<lparr>disk := [''dir/testfile'' \<mapsto> [0, 0, 1, 2]]\<rparr>)
        ((test_manager 2)\<lparr>files := [''testfile'' \<mapsto> \<lparr>fname = ''dir/testfile'', fpos = 4\<rparr>]\<rparr>)
        \<lparr>filename = ''testfile'', blknum = 1\<rparr> \<lparr>buf = \<lparr>elems = [7, 7], spare = []\<rparr>\<rparr>
     = Inr (\<lparr>buf = \<lparr>elems = [1, 2], spare = []\<rparr>\<rparr>,
            test_world\<lparr>disk := [''dir/testfile'' \<mapsto> [0, 0, 1, 2]]\<rparr>,
            (test_manager 2)\<lparr>files := [''testfile'' \<mapsto> \<lparr>fname = ''dir/testfile'', fpos = 4\<rparr>]\<rparr>)"
proof -
  have two: "replicate 2 (0 :: byte) = [0, 0]" by (simp add: numeral_2_eq_2)
  note defs = append_fm_def length_fm_def read_fm_def write_fm_def getFile_def os_Create_def
    os_Seek_def os_Write_def os_Read_def os_Stat_def write_at_def store_file_def make_bytes_def
    newBlockID_def copy_bytes_def maxAlloc_def maxRW_def file_limit_def test_world_def
    test_manager_def Let_def word_sless_alt signed_divide_int_def two numeral_2_eq_2 [symmetric]
  show ?thesis
  proof (intro conjI)
    show "append_fm test_world (test_manager 2) ''testfile''
       = Inr (\<lparr>filename = ''testfile'', blknum = 0\<rparr>,
              test_world\<lparr>disk := [''dir/testfile'' \<mapsto> [0, 0]]\<rparr>,
              (test_manager 2)\<lparr>files := [''testfile'' \<mapsto> \<lparr>fname = ''dir/testfile'', fpos = 2\<rparr>]\<rparr>)"
      by (simp add: defs)
    show "append_fm (test_world\<lparr>disk := [''dir/testfile'' \<mapsto> [0, 0]]\<rparr>)
        ((test_manager 2)\<lparr>files := [''testfile'' \<mapsto> \<lparr>fname = ''dir/testfile'', fpos = 2\<rparr>]\<rparr>)
        ''testfile''
       = Inr (\<lparr>filename = ''testfile'', blknum = 1\<rparr>,
              test_world\<lparr>disk := [''dir/testfile'' \<mapsto> [0, 0, 0, 0]]\<rparr>,
              (test_manager 2)\<lparr>files := [''testfile'' \<mapsto> \<lparr>fname = ''dir/testfile'', fpos = 4\<rparr>]\<rparr>)"
      by (simp add: defs)
    show "read_fm (test_world\<lparr>disk := [''dir/testfile'' \<mapsto> [0, 0, 0, 0]]\<rparr>)
        ((test_manager 2)\<lparr>files := [''testfile'' \<mapsto> \<lparr>fname = ''dir/testfile'', fpos = 4\<rparr>]\<rparr>)
        \<lparr>filename = ''testfile'', blknum = 0\<rparr> \<lparr>buf = \<lparr>elems = [7, 7], spare = []\<rparr>\<rparr>
       = Inr (\<lparr>buf = \<lparr>elems = [0, 0], spare = []\<rparr>\<rparr>,
              test_world\<lparr>disk := [''dir/testfile'' \<mapsto> [0, 0, 0, 0]]\<rparr>,
              (test_manager 2)\<lparr>files := [''testfile'' \<mapsto> \<lparr>fname = ''dir/testfile'', fpos = 2\<rparr>]\<rparr>)"
      by (simp add: defs)
    show "write_fm (test_world\<lparr>disk := [''dir/testfile'' \<mapsto> [0, 0, 0, 0]]\<rparr>)
        ((test_manager 2)\<lparr>files := [''testfile'' \<mapsto> \<lparr>fname = ''dir/testfile'', fpos = 2\<rparr>]\<rparr>)
        \<lparr>filename = ''testfile'', blknum = 2 ^ 62\<rparr> \<lparr>buf = \<lparr>elems = [1, 2], spare = []\<rparr>\<rparr>
       = Inr (test_world\<lparr>disk := [''dir/testfile'' \<mapsto> [0, 0, 1, 2]]\<rparr>,
              (test_manager 2)\<lparr>files := [''testfile'' \<mapsto> \<lparr>fname = ''dir/testfile'', fpos = 4\<rparr>]\<rparr>)"
      by (simp add: defs)
    show "read_fm (test_world\<lparr>disk := [''dir/testfile'' \<mapsto> [0, 0, 1, 2]]\<rparr>)
        ((test_manager 2)\<lparr>files := [''testfile'' \<mapsto> \<lparr>fname = ''dir/testfile'', fpos = 4\<rparr>]\<rparr>)
        \<lparr>filename = ''testfile'', blknum = 1\<rparr> \<lparr>buf = \<lparr>elems = [7, 7], spare = []\<rparr>\<rparr>
       = Inr (\<lparr>buf = \<lparr>elems = [1, 2], spare = []\<rparr>\<rparr>,
              test_world\<lparr>disk := [''dir/testfile'' \<mapsto> [0, 0, 1, 2]]\<rparr>,
              (test_manager 2)\<lparr>files := [''testfile'' \<mapsto> \<lparr>fname = ''dir/testfile'', fpos = 4\<rparr>]\<rparr>)"
      by (simp add: defs)
  qed
qed

text \<open>
  Claim C8, amended. For every file name \<open>f\<close> that \<open>getFile\<close> opens, every positive
  block size of at most \<open>maxRW\<close> bytes (what one \<open>Read\<close> transfers), every file whose
  next block ends within the limit of the file system, and every page \<open>p\<close> of size
  \<open>block_size\<close>: \<open>append(f)\<close> returns a BlockID \<open>blk\<close>, and \<open>read(blk, p)\<close> returns and
  fills \<open>p\<close> with \<open>block_size\<close> zero bytes, directly after the \<open>append\<close> and after every
  sequence of calls of \<open>read\<close>, \<open>write\<close>, \<open>append\<close> and \<open>length\<close> that return and spare
  \<open>blk\<close>: none of them opens the file of \<open>f\<close> anew under a file name that the manager
  has not yet seen, and every \<open>write\<close> to the file of \<open>f\<close> among them writes at most
  \<open>block_size\<close> bytes to a block other than \<open>blk\<close> whose offset \<open>blknum * block_size\<close>
  is not negative and within the limit of the file system.
\<close>

theorem append_reads_zero:
  assumes "getFile w fm name = Inr (f, w1, fm1)"
    and "disk w1 (fname f) = Some c"
    and "0 <s blocksize fm"
    and "sint (blocksize fm) \<le> int maxRW"
    and "length c div nat (sint (blocksize fm)) * nat (sint (blocksize fm))
           + nat (sint (blocksize fm)) \<le> file_limit w"
    and "length (elems (buf p)) = nat (sint (blocksize fm))"
  shows "\<exists>blk w2 fm2.
           append_fm w fm name = Inr (blk, w2, fm2)
         \<and> (\<exists>p' fm3. read_fm w2 fm2 blk p = Inr (p', w2, fm3)
               \<and> elems (buf p') = replicate (nat (sint (blocksize fm))) 0)
         \<and> (\<forall>cs w' fm'.
               untouched w2 fm2 blk cs \<and> calls_fm w2 fm2 cs = Inr (w', fm') \<longrightarrow>
               (\<exists>p' fm3. read_fm w' fm' blk p = Inr (p', w', fm3)
                  \<and> elems (buf p') = replicate (nat (sint (blocksize fm))) 0))"
proof -
  let ?B = "nat (sint (blocksize fm))"
  let ?q = "length c div ?B"
  let ?c2 = "take (?q * ?B) c @ replicate ?B 0"
  let ?f' = "f\<lparr>fpos := ?q * ?B + ?B\<rparr>"
  let ?blk = "\<lparr>filename = name, blknum = (word_of_nat ?q :: go_int)\<rparr>"
  let ?w2 = "w1\<lparr>disk := (disk w1)(fname f \<mapsto> ?c2)\<rparr>"
  let ?fm2 = "store_file fm1 name ?f'"
  have B: "0 < ?B" "sint (blocksize fm) = int ?B"
    using positive_blocksize [OF assms(3)] by simp_all
  have Bs: "0 < sint (blocksize fm)" using B by simp
  have b1: "blocksize fm1 = blocksize fm" using assms(1) by (rule getFile_result)
  have l1: "file_limit w1 = file_limit w" using assms(1) by (rule getFile_result)
  have b2: "blocksize ?fm2 = blocksize fm" by (simp add: store_file_simps b1)
  have l2: "file_limit ?w2 = file_limit w" using l1 by (simp add: file_limit_def)
  have alloc: "sint (blocksize fm) \<le> int maxAlloc"
    using assms(4) by (simp add: maxRW_def maxAlloc_def)
  have app: "append_fm w fm name = Inr (?blk, ?w2, ?fm2)"
    using assms(1-3) alloc assms(5) by (rule append_fm_value)
  have le: "?q * ?B \<le> length c" by (rule div_times_less_eq_dividend)
  have qb: "?q * ?B \<le> file_limit w" using assms(5) by linarith
  have qq: "?q < 2 ^ 63"
  proof -
    have "?q \<le> ?q * ?B" using B(1) by (simp add: Suc_le_eq)
    with qb file_limit_less [of w] show ?thesis by linarith
  qed
  have sq: "sint (blknum ?blk) = int ?q" using sint_of_nat64 [OF qq] by simp
  have nq: "nat (sint (blknum ?blk)) = ?q" unfolding sq by simp
  have n0: "0 \<le> sint (blknum ?blk)" unfolding sq by simp
  have rng: "sint (blknum ?blk) * sint (blocksize fm) \<le> int (file_limit w)"
  proof -
    have "int ?q * int ?B \<le> int (file_limit w)"
      using qb by (metis of_nat_mult of_nat_le_iff)
    moreover have "int ?B = sint (blocksize fm)" using Bs by simp
    ultimately show ?thesis using sq by simp
  qed
  have blk2: "block_of ?c2 ?q ?B = replicate ?B 0"
    using le by (simp add: block_of_def)
  have z2: "zero_block ?w2 ?fm2 ?blk"
  proof (rule zero_blockI)
    show "files ?fm2 (filename ?blk) = Some ?f'" by (simp add: store_file_simps)
    show "disk ?w2 (fname ?f') = Some ?c2" by simp
    show "block_of ?c2 (nat (sint (blknum ?blk))) (nat (sint (blocksize ?fm2)))
        = replicate (nat (sint (blocksize ?fm2))) 0"
      unfolding b2 nq by (rule blk2)
  qed
  have later: "\<exists>p' fm3. read_fm w' fm' ?blk p = Inr (p', w', fm3)
                 \<and> elems (buf p') = replicate ?B 0"
    if un: "untouched ?w2 ?fm2 ?blk cs" and run: "calls_fm ?w2 ?fm2 cs = Inr (w', fm')"
    for cs w' fm'
  proof -
    have Bs2: "0 < sint (blocksize ?fm2)" unfolding b2 by (rule Bs)
    from calls_keep_zero_block [OF z2 Bs2 n0 un run]
    have z: "zero_block w' fm' ?blk" and b: "blocksize fm' = blocksize fm"
      and l: "file_limit w' = file_limit w"
      unfolding b2 l2 by simp_all
    have r: "in_range w' fm' ?blk"
      unfolding in_range_def b l using n0 rng by simp
    have "\<exists>p' fm3. read_fm w' fm' ?blk p = Inr (p', w', fm3)
        \<and> elems (buf p') = replicate (nat (sint (blocksize fm'))) 0"
      using z _ r by (rule read_zero_block) (simp_all add: b Bs assms(4,6))
    then show ?thesis unfolding b .
  qed
  have now: "\<exists>p' fm3. read_fm ?w2 ?fm2 ?blk p = Inr (p', ?w2, fm3)
                 \<and> elems (buf p') = replicate ?B 0"
    using later [of "[]" ?w2 ?fm2] by simp
  have gen: "\<forall>cs w' fm'.
      untouched ?w2 ?fm2 ?blk cs \<and> calls_fm ?w2 ?fm2 cs = Inr (w', fm') \<longrightarrow>
      (\<exists>p' fm3. read_fm w' fm' ?blk p = Inr (p', w', fm3)
         \<and> elems (buf p') = replicate ?B 0)"
    using later by blast
  from app now gen show ?thesis by blast
qed

text \<open>
  With block size 4: the manager appends block 0 to a new file, then appends block 1
  and writes a page to block 1; block 0 still reads as four zero bytes.
\<close>

theorem append_reads_zero_witness:
  "\<exists>blk w2 fm2.
      append_fm test_world (test_manager 4) ''testfile'' = Inr (blk, w2, fm2)
    \<and> untouched w2 fm2 blk
        [Append ''testfile'',
         Write \<lparr>filename = ''testfile'', blknum = 1\<rparr> \<lparr>buf = \<lparr>elems = [1, 2, 3, 4], spare = []\<rparr>\<rparr>]
    \<and> (\<exists>w' fm'.
          calls_fm w2 fm2
            [Append ''testfile'',
             Write \<lparr>filename = ''testfile'', blknum = 1\<rparr>
               \<lparr>buf = \<lparr>elems = [1, 2, 3, 4], spare = []\<rparr>\<rparr>] = Inr (w', fm')
        \<and> disk w' ''dir/testfile'' = Some [0, 0, 0, 0, 1, 2, 3, 4]
        \<and> (\<exists>p' fm3. read_fm w' fm' blk \<lparr>buf = \<lparr>elems = [7, 7, 7, 7], spare = []\<rparr>\<rparr>
                        = Inr (p', w', fm3)
              \<and> elems (buf p') = [0, 0, 0, 0]))"
proof -
  let ?f = "\<lparr>fname = ''dir/testfile'', fpos = 0\<rparr>"
  let ?w1 = "test_world\<lparr>disk := [''dir/testfile'' \<mapsto> []]\<rparr>"
  let ?p = "\<lparr>buf = \<lparr>elems = [7, 7, 7, 7], spare = []\<rparr>\<rparr>"
  let ?blk = "\<lparr>filename = ''testfile'', blknum = 0\<rparr>"
  let ?W1 = "test_world\<lparr>disk := [''dir/testfile'' \<mapsto> [0, 0, 0, 0]]\<rparr>"
  let ?F1 = "(test_manager 4)\<lparr>files := [''testfile'' \<mapsto> \<lparr>fname = ''dir/testfile'', fpos = 4\<rparr>]\<rparr>"
  let ?W2 = "test_world\<lparr>disk := [''dir/testfile'' \<mapsto> [0, 0, 0, 0, 0, 0, 0, 0]]\<rparr>"
  let ?F2 = "(test_manager 4)\<lparr>files := [''testfile'' \<mapsto> \<lparr>fname = ''dir/testfile'', fpos = 8\<rparr>]\<rparr>"
  let ?W3 = "test_world\<lparr>disk := [''dir/testfile'' \<mapsto> [0, 0, 0, 0, 1, 2, 3, 4]]\<rparr>"
  let ?wr = "Write \<lparr>filename = ''testfile'', blknum = 1\<rparr>
               \<lparr>buf = \<lparr>elems = [1, 2, 3, 4], spare = []\<rparr>\<rparr>"
  let ?cs = "[Append ''testfile'', ?wr]"
  have r4: "replicate 4 (0 :: byte) = [0, 0, 0, 0]" by (simp add: numeral_eq_Suc)
  have four: "Suc (Suc (Suc (Suc 0))) = 4" by simp
  note defs = append_fm_def length_fm_def read_fm_def write_fm_def getFile_def os_Create_def
    os_Seek_def os_Write_def os_Read_def os_Stat_def write_at_def store_file_def make_bytes_def
    newBlockID_def copy_bytes_def maxAlloc_def maxRW_def file_limit_def test_world_def
    test_manager_def Let_def word_sless_alt signed_divide_int_def r4 four
  have d: "disk ?w1 (fname ?f) = Some []" by simp
  have p: "0 <s blocksize (test_manager 4)"
    by (simp add: test_manager_def word_sless_alt)
  have a: "sint (blocksize (test_manager 4)) \<le> int maxRW"
    by (simp add: test_manager_def maxRW_def)
  have l: "length ([] :: byte list) div nat (sint (blocksize (test_manager 4)))
             * nat (sint (blocksize (test_manager 4)))
           + nat (sint (blocksize (test_manager 4))) \<le> file_limit test_world"
    by (simp add: test_manager_def test_world_def file_limit_def)
  have s: "length (elems (buf ?p)) = nat (sint (blocksize (test_manager 4)))"
    by (simp add: test_manager_def)
  have b: "nat (sint (blocksize (test_manager 4))) = 4"
    by (simp add: test_manager_def)
  have v: "append_fm test_world (test_manager 4) ''testfile'' = Inr (?blk, ?W1, ?F1)"
    by (simp add: defs)
  have c1: "call_fm ?W1 ?F1 (Append ''testfile'') = Inr (?W2, ?F2)"
    by (simp add: call_fm_def defs)
  have c2: "call_fm ?W2 ?F2 ?wr = Inr (?W3, ?F2)"
    by (simp add: call_fm_def defs)
  have s1: "spares ?W1 ?F1 ?blk (Append ''testfile'')"
    by (simp add: spares_def call_name_def test_manager_def)
  have s2: "spares ?W2 ?F2 ?blk ?wr"
    by (simp add: spares_def call_name_def in_range_def file_limit_def test_world_def
          test_manager_def)
  have un: "untouched ?W1 ?F1 ?blk ?cs" using s1 s2 c1 c2 by simp
  have run: "calls_fm ?W1 ?F1 ?cs = Inr (?W3, ?F2)" using c1 c2 by simp
  from append_reads_zero [OF test_getFile d p a l s]
  obtain blk w2 fm2 where
    app: "append_fm test_world (test_manager 4) ''testfile'' = Inr (blk, w2, fm2)"
    and gen: "\<And>cs w' fm'.
               untouched w2 fm2 blk cs \<and> calls_fm w2 fm2 cs = Inr (w', fm')
               \<Longrightarrow> \<exists>p' fm3. read_fm w' fm' blk ?p = Inr (p', w', fm3)
                     \<and> elems (buf p') = replicate 4 0"
    unfolding b by blast
  from app v have e: "blk = ?blk" "w2 = ?W1" "fm2 = ?F1" by simp_all
  have "\<exists>p' fm3. read_fm ?W3 ?F2 ?blk ?p = Inr (p', ?W3, fm3) \<and> elems (buf p') = replicate 4 0"
    using gen [of ?cs ?W3 ?F2] un run unfolding e by simp
  then have rd: "\<exists>p' fm3. read_fm ?W3 ?F2 ?blk ?p = Inr (p', ?W3, fm3)
      \<and> elems (buf p') = [0, 0, 0, 0]" unfolding r4 .
  have dk: "disk ?W3 ''dir/testfile'' = Some [0, 0, 0, 0, 1, 2, 3, 4]" by simp
  show ?thesis
    using v un run dk rd by blast
qed

text \<open>
  With block size 2, the manager appends three blocks to a new file and reads block 0:
  the file holds six zero bytes and its offset stands at block 1.
\<close>

lemma write_then_read_counterexample_state:
  "append_fm test_world (test_manager 2) ''testfile''
     = Inr (\<lparr>filename = ''testfile'', blknum = 0\<rparr>,
            test_world\<lparr>disk := [''dir/testfile'' \<mapsto> [0, 0]]\<rparr>,
            (test_manager 2)\<lparr>files := [''testfile'' \<mapsto> \<lparr>fname = ''dir/testfile'', fpos = 2\<rparr>]\<rparr>)"
  "append_fm (test_world\<lparr>disk := [''dir/testfile'' \<mapsto> [0, 0]]\<rparr>)
      ((test_manager 2)\<lparr>files := [''testfile'' \<mapsto> \<lparr>fname = ''dir/testfile'', fpos = 2\<rparr>]\<rparr>)
      ''testfile''
     = Inr (\<lparr>filename = ''testfile'', blknum = 1\<rparr>,
            test_world\<lparr>disk := [''dir/testfile'' \<mapsto> [0, 0, 0, 0]]\<rparr>,
            (test_manager 2)\<lparr>files := [''testfile'' \<mapsto> \<lparr>fname = ''dir/testfile'', fpos = 4\<rparr>]\<rparr>)"
  "append_fm (test_world\<lparr>disk := [''dir/testfile'' \<mapsto> [0, 0, 0, 0]]\<rparr>)
      ((test_manager 2)\<lparr>files := [''testfile'' \<mapsto> \<lparr>fname = ''dir/testfile'', fpos = 4\<rparr>]\<rparr>)
      ''testfile''
     = Inr (\<lparr>filename = ''testfile'', blknum = 2\<rparr>,
            test_world\<lparr>disk := [''dir/testfile'' \<mapsto> [0, 0, 0, 0, 0, 0]]\<rparr>,
            (test_manager 2)\<lparr>files := [''testfile'' \<mapsto> \<lparr>fname = ''dir/testfile'', fpos = 6\<rparr>]\<rparr>)"
  "read_fm (test_world\<lparr>disk := [''dir/testfile'' \<mapsto> [0, 0, 0, 0, 0, 0]]\<rparr>)
      ((test_manager 2)\<lparr>files := [''testfile'' \<mapsto> \<lparr>fname = ''dir/testfile'', fpos = 6\<rparr>]\<rparr>)
      \<lparr>filename = ''testfile'', blknum = 0\<rparr> \<lparr>buf = \<lparr>elems = [7, 7], spare = []\<rparr>\<rparr>
     = Inr (\<lparr>buf = \<lparr>elems = [0, 0], spare = []\<rparr>\<rparr>,
            test_world\<lparr>disk := [''dir/testfile'' \<mapsto> [0, 0, 0, 0, 0, 0]]\<rparr>,
            (test_manager 2)\<lparr>files := [''testfile'' \<mapsto> \<lparr>fname = ''dir/testfile'', fpos = 2\<rparr>]\<rparr>)"
proof -
  have two: "replicate 2 (0 :: byte) = [0, 0]" by (simp add: numeral_2_eq_2)
  note defs = append_fm_def length_fm_def read_fm_def getFile_def os_Create_def os_Seek_def
    os_Write_def os_Read_def os_Stat_def write_at_def store_file_def make_bytes_def
    newBlockID_def copy_bytes_def maxAlloc_def maxRW_def file_limit_def test_world_def
    test_manager_def Let_def word_sless_alt
    signed_divide_int_def two numeral_2_eq_2 [symmetric]
  show "append_fm test_world (test_manager 2) ''testfile''
     = Inr (\<lparr>filename = ''testfile'', blknum = 0\<rparr>,
            test_world\<lparr>disk := [''dir/testfile'' \<mapsto> [0, 0]]\<rparr>,
            (test_manager 2)\<lparr>files := [''testfile'' \<mapsto> \<lparr>fname = ''dir/testfile'', fpos = 2\<rparr>]\<rparr>)"
    by (simp add: defs)
  show "append_fm (test_world\<lparr>disk := [''dir/testfile'' \<mapsto> [0, 0]]\<rparr>)
      ((test_manager 2)\<lparr>files := [''testfile'' \<mapsto> \<lparr>fname = ''dir/testfile'', fpos = 2\<rparr>]\<rparr>)
      ''testfile''
     = Inr (\<lparr>filename = ''testfile'', blknum = 1\<rparr>,
            test_world\<lparr>disk := [''dir/testfile'' \<mapsto> [0, 0, 0, 0]]\<rparr>,
            (test_manager 2)\<lparr>files := [''testfile'' \<mapsto> \<lparr>fname = ''dir/testfile'', fpos = 4\<rparr>]\<rparr>)"
    by (simp add: defs)
  show "append_fm (test_world\<lparr>disk := [''dir/testfile'' \<mapsto> [0, 0, 0, 0]]\<rparr>)
      ((test_manager 2)\<lparr>files := [''testfile'' \<mapsto> \<lparr>fname = ''dir/testfile'', fpos = 4\<rparr>]\<rparr>)
      ''testfile''
     = Inr (\<lparr>filename = ''testfile'', blknum = 2\<rparr>,
            test_world\<lparr>disk := [''dir/testfile'' \<mapsto> [0, 0, 0, 0, 0, 0]]\<rparr>,
            (test_manager 2)\<lparr>files := [''testfile'' \<mapsto> \<lparr>fname = ''dir/testfile'', fpos = 6\<rparr>]\<rparr>)"
    by (simp add: defs)
  show "read_fm (test_world\<lparr>disk := [''dir/testfile'' \<mapsto> [0, 0, 0, 0, 0, 0]]\<rparr>)
      ((test_manager 2)\<lparr>files := [''testfile'' \<mapsto> \<lparr>fname = ''dir/testfile'', fpos = 6\<rparr>]\<rparr>)
      \<lparr>filename = ''testfile'', blknum = 0\<rparr> \<lparr>buf = \<lparr>elems = [7, 7], spare = []\<rparr>\<rparr>
     = Inr (\<lparr>buf = \<lparr>elems = [0, 0], spare = []\<rparr>\<rparr>,
            test_world\<lparr>disk := [''dir/testfile'' \<mapsto> [0, 0, 0, 0, 0, 0]]\<rparr>,
            (test_manager 2)\<lparr>files := [''testfile'' \<mapsto> \<lparr>fname = ''dir/testfile'', fpos = 2\<rparr>]\<rparr>)"
    by (simp add: defs)
qed

text \<open>
  Claim C9, as the specification states it, fails: the seek offset \<open>blknum * blocksize\<close>
  is computed in 64 bits and the result of \<open>Seek\<close> is not looked at. With block size 2
  and block number \<open>2^62\<close> the offset wraps to \<open>-2^63\<close>, \<open>Seek\<close> refuses it, and \<open>write\<close>
  and \<open>read\<close> work at the current offset of the file. In the state above,
  \<open>write(blk, p)\<close> overwrites block 1 and the \<open>read(blk, p2)\<close> that follows fills \<open>p2\<close>
  with block 2: both return, and \<open>p2\<close> holds \<open>[0, 0]\<close>, not the \<open>[1, 2]\<close> of \<open>p\<close>.
\<close>

theorem write_then_read_counterexample:
  "write_fm (test_world\<lparr>disk := [''dir/testfile'' \<mapsto> [0, 0, 0, 0, 0, 0]]\<rparr>)
      ((test_manager 2)\<lparr>files := [''testfile'' \<mapsto> \<lparr>fname = ''dir/testfile'', fpos = 2\<rparr>]\<rparr>)
      \<lparr>filename = ''testfile'', blknum = 2 ^ 62\<rparr>
      \<lparr>buf = \<lparr>elems = [1, 2], spare = []\<rparr>\<rparr>
     = Inr (test_world\<lparr>disk := [''dir/testfile'' \<mapsto> [0, 0, 1, 2, 0, 0]]\<rparr>,
            (test_manager 2)\<lparr>files := [''testfile'' \<mapsto> \<lparr>fname = ''dir/testfile'', fpos = 4\<rparr>]\<rparr>)
   \<and> read_fm (test_world\<lparr>disk := [''dir/testfile'' \<mapsto> [0, 0, 1, 2, 0, 0]]\<rparr>)
        ((test_manager 2)\<lparr>files := [''testfile'' \<mapsto> \<lparr>fname = ''dir/testfile'', fpos = 4\<rparr>]\<rparr>)
        \<lparr>filename = ''testfile'', blknum = 2 ^ 62\<rparr>
        \<lparr>buf = \<lparr>elems = [9, 9], spare = []\<rparr>\<rparr>
     = Inr (\<lparr>buf = \<lparr>elems = [0, 0], spare = []\<rparr>\<rparr>,
            test_world\<lparr>disk := [''dir/testfile'' \<mapsto> [0, 0, 1, 2, 0, 0]]\<rparr>,
            (test_manager 2)\<lparr>files := [''testfile'' \<mapsto> \<lparr>fname = ''dir/testfile'', fpos = 6\<rparr>]\<rparr>)"
  by (simp add: write_fm_def read_fm_def getFile_def os_Seek_def os_Write_def
        os_Read_def write_at_def store_file_def copy_bytes_def maxRW_def file_limit_def
        test_world_def test_manager_def Let_def word_sless_alt)

text \<open>
  In a new file the same \<open>read\<close> finds the end of the file and panics. So it does when
  the offset is beyond the limit of the file system, \<open>2^44\<close> bytes here: with block size
  4 and block number \<open>2^43\<close>, \<open>Seek\<close> refuses the offset \<open>2^45\<close>, \<open>write\<close> puts the page
  at the start of the new file, and \<open>read\<close> finds the end of the file.
\<close>

lemma write_then_read_fresh_panics:
  "write_fm test_world (test_manager 2) \<lparr>filename = ''testfile'', blknum = 2 ^ 62\<rparr>
      \<lparr>buf = \<lparr>elems = [1, 2], spare = []\<rparr>\<rparr>
     = Inr (test_world\<lparr>disk := [''dir/testfile'' \<mapsto> [1, 2]]\<rparr>,
            (test_manager 2)\<lparr>files := [''testfile'' \<mapsto> \<lparr>fname = ''dir/testfile'', fpos = 2\<rparr>]\<rparr>)
   \<and> read_fm (test_world\<lparr>disk := [''dir/testfile'' \<mapsto> [1, 2]]\<rparr>)
        ((test_manager 2)\<lparr>files := [''testfile'' \<mapsto> \<lparr>fname = ''dir/testfile'', fpos = 2\<rparr>]\<rparr>)
        \<lparr>filename = ''testfile'', blknum = 2 ^ 62\<rparr>
        \<lparr>buf = \<lparr>elems = [0, 0], spare = []\<rparr>\<rparr>
     = Inl (PanicError EOF)"
  by (simp add: write_fm_def read_fm_def getFile_def os_Create_def os_Seek_def os_Write_def
        os_Read_def write_at_def store_file_def file_limit_def test_world_def test_manager_def
        Let_def word_sless_alt numeral_2_eq_2 [symmetric])

lemma write_then_read_beyond_limit:
  "write_fm test_world (test_manager 4) \<lparr>filename = ''testfile'', blknum = 2 ^ 43\<rparr>
      \<lparr>buf = \<lparr>elems = [1, 2, 3, 4], spare = []\<rparr>\<rparr>
     = Inr (test_world\<lparr>disk := [''dir/testfile'' \<mapsto> [1, 2, 3, 4]]\<rparr>,
            (test_manager 4)\<lparr>files := [''testfile'' \<mapsto> \<lparr>fname = ''dir/testfile'', fpos = 4\<rparr>]\<rparr>)
   \<and> read_fm (test_world\<lparr>disk := [''dir/testfile'' \<mapsto> [1, 2, 3, 4]]\<rparr>)
        ((test_manager 4)\<lparr>files := [''testfile'' \<mapsto> \<lparr>fname = ''dir/testfile'', fpos = 4\<rparr>]\<rparr>)
        \<lparr>filename = ''testfile'', blknum = 2 ^ 43\<rparr>
        \<lparr>buf = \<lparr>elems = [0, 0, 0, 0], spare = []\<rparr>\<rparr>
     = Inl (PanicError EOF)"
proof -
  have four: "Suc (Suc (Suc (Suc 0))) = 4" by simp
  show ?thesis
    by (simp add: write_fm_def read_fm_def getFile_def os_Create_def os_Seek_def os_Write_def
          os_Read_def write_at_def store_file_def file_limit_def test_world_def
          test_manager_def Let_def word_sless_alt four)
qed

text \<open>
  Claim C9, amended. For every BlockID \<open>blk\<close> whose file \<open>getFile\<close> opens and whose seek
  offset \<open>blknum * blocksize\<close>, computed in 64 bits, is not negative and leaves the end of
  the block within the limit of the file system, and every pair of pages \<open>p\<close> and \<open>p2\<close>
  of the same size, which is at most \<open>maxRW\<close> bytes (what one \<open>Read\<close> transfers):
  \<open>write(blk, p)\<close> returns, and \<open>read(blk, p2)\<close> immediately after it returns and leaves
  in \<open>p2\<close> the bytes of \<open>p\<close>.
\<close>

theorem write_then_read:
  assumes "getFile w fm (filename blk) = Inr (f, w1, fm1)"
    and "disk w1 (fname f) = Some c"
    and "0 \<le>s blknum blk * blocksize fm"
    and "nat (sint (blknum blk * blocksize fm)) + length (elems (buf p)) \<le> file_limit w"
    and "length (elems (buf p)) \<le> maxRW"
    and "length (elems (buf p2)) = length (elems (buf p))"
  shows "\<exists>w2 fm2 fm3.
           write_fm w fm blk p = Inr (w2, fm2)
         \<and> read_fm w2 fm2 blk p2 = Inr (p2\<lparr>buf := (buf p2)\<lparr>elems := elems (buf p)\<rparr>\<rparr>, w2, fm3)"
proof -
  let ?pos = "nat (sint (blknum blk * blocksize fm))"
  let ?E = "elems (buf p)"
  let ?c' = "write_at c ?pos ?E"
  let ?f' = "f\<lparr>fpos := ?pos + length ?E\<rparr>"
  let ?w2 = "w1\<lparr>disk := (disk w1)(fname f \<mapsto> ?c')\<rparr>"
  let ?fm2 = "store_file fm1 (filename blk) ?f'"
  have b1: "blocksize fm1 = blocksize fm" using assms(1) by (rule getFile_result)
  have l1: "file_limit w1 = file_limit w" using assms(1) by (rule getFile_result)
  have b2: "blocksize ?fm2 = blocksize fm" by (simp add: store_file_simps b1)
  have l2: "file_limit ?w2 = file_limit w" using l1 by (simp add: file_limit_def)
  have wr: "write_fm w fm blk p = Inr (?w2, ?fm2)"
    using assms(1-4) by (rule write_fm_value)
  have blockdata: "(?E = [] \<or> ?pos + length ?E \<le> length ?c')
      \<and> take (length ?E) (drop ?pos ?c') = ?E"
  proof (cases "?E = []")
    case True
    then show ?thesis by simp
  next
    case False
    then show ?thesis using written_block [of ?E ?pos c] by simp
  qed
  have rd: "read_fm ?w2 ?fm2 blk p2 =
     Inr (p2\<lparr>buf := (buf p2)\<lparr>elems :=
            take (length (elems (buf p2))) (drop (nat (sint (blknum blk * blocksize ?fm2))) ?c')\<rparr>\<rparr>,
          ?w2,
          store_file ?fm2 (filename blk)
            (?f'\<lparr>fpos := nat (sint (blknum blk * blocksize ?fm2)) + length (elems (buf p2))\<rparr>))"
  proof (rule read_fm_value)
    show "files ?fm2 (filename blk) = Some ?f'" by (simp add: store_file_simps)
    show "disk ?w2 (fname ?f') = Some ?c'" by simp
    show "0 \<le>s blknum blk * blocksize ?fm2" unfolding b2 by (rule assms(3))
    show "nat (sint (blknum blk * blocksize ?fm2)) \<le> file_limit ?w2"
      unfolding b2 l2 using assms(4) by linarith
    show "elems (buf p2) = []
        \<or> nat (sint (blknum blk * blocksize ?fm2)) + length (elems (buf p2)) \<le> length ?c'"
      unfolding b2 using blockdata assms(6) by auto
    show "length (elems (buf p2)) \<le> maxRW" using assms(5,6) by simp
  qed
  have z: "take (length (elems (buf p2))) (drop ?pos ?c') = ?E"
    using blockdata assms(6) by simp
  note rd' = rd [unfolded b2 z]
  show ?thesis
    using wr rd' by simp
qed

text \<open>Block size 4: a page written to block 2 of a new file and read back.\<close>

theorem write_then_read_witness:
  "\<exists>w2 fm2 fm3.
      write_fm test_world (test_manager 4) \<lparr>filename = ''testfile'', blknum = 2\<rparr>
        \<lparr>buf = \<lparr>elems = [1, 2, 3, 4], spare = []\<rparr>\<rparr> = Inr (w2, fm2)
    \<and> read_fm w2 fm2 \<lparr>filename = ''testfile'', blknum = 2\<rparr>
        \<lparr>buf = \<lparr>elems = [0, 0, 0, 0], spare = []\<rparr>\<rparr>
        = Inr (\<lparr>buf = \<lparr>elems = [1, 2, 3, 4], spare = []\<rparr>\<rparr>, w2, fm3)"
proof -
  let ?f = "\<lparr>fname = ''dir/testfile'', fpos = 0\<rparr>"
  let ?w1 = "test_world\<lparr>disk := [''dir/testfile'' \<mapsto> []]\<rparr>"
  let ?blk = "\<lparr>filename = ''testfile'', blknum = 2\<rparr>"
  let ?p = "\<lparr>buf = \<lparr>elems = [1, 2, 3, 4], spare = []\<rparr>\<rparr>"
  let ?p2 = "\<lparr>buf = \<lparr>elems = [0, 0, 0, 0], spare = []\<rparr>\<rparr>"
  have g: "getFile test_world (test_manager 4) (filename ?blk) = Inr (?f, ?w1,
      (test_manager 4)\<lparr>files := [''testfile'' \<mapsto> ?f]\<rparr>)"
    using test_getFile [of 4] by simp
  have d: "disk ?w1 (fname ?f) = Some []" by simp
  have o: "0 \<le>s blknum ?blk * blocksize (test_manager 4)"
    by (simp add: test_manager_def word_sle_eq)
  have l: "nat (sint (blknum ?blk * blocksize (test_manager 4))) + length (elems (buf ?p))
      \<le> file_limit test_world"
    by (simp add: test_manager_def test_world_def file_limit_def)
  have m: "length (elems (buf ?p)) \<le> maxRW" by (simp add: maxRW_def)
  have s: "length (elems (buf ?p2)) = length (elems (buf ?p))" by simp
  from write_then_read [OF g d o l m s] show ?thesis by simp
qed

section \<open>The self-test passes\<close>

text \<open>
  On a file system where the directory exists and the file can be created,
  \<open>testFileManager\<close> returns: both assertions hold.
\<close>

lemma testFileManager_passes:
  "testFileManager \<lparr>open_dir = None, mkdir_dir = None, reopen_dir = None\<rparr> test_world = None"
proof -
  let ?os = "\<lparr>open_dir = None, mkdir_dir = None, reopen_dir = None\<rparr>"
  let ?d = "\<lparr>fname = ''file-manager-test-dir'', fpos = 0\<rparr>"
  let ?fm = "\<lparr>directory = Some ?d, blocksize = 400, files = Map.empty\<rparr>"
  let ?blk = "\<lparr>filename = ''testfile'', blknum = 2\<rparr>"
  let ?p1 = "\<lparr>buf = \<lparr>elems = replicate 400 0, spare = []\<rparr>\<rparr>"
  let ?s = "''abcdefghijklm''"
  let ?bs = "bytes_of_string ?s"
  let ?E1 = "put_at (put_at (replicate 400 0) 88 (PutUint32 13)) 92 ?bs"
  let ?p1a = "\<lparr>buf = \<lparr>elems = ?E1, spare = []\<rparr>\<rparr>"
  let ?E2 = "put_at ?E1 105 (PutUint32 4096)"
  let ?p1b = "\<lparr>buf = \<lparr>elems = ?E2, spare = []\<rparr>\<rparr>"
  let ?path = "''file-manager-test-dir/testfile''"
  let ?f = "\<lparr>fname = ?path, fpos = 0\<rparr>"
  let ?w1 = "test_world\<lparr>disk := [?path \<mapsto> []]\<rparr>"
  let ?fm1 = "\<lparr>directory = Some ?d, blocksize = 400, files = [''testfile'' \<mapsto> ?f]\<rparr>"
  let ?f' = "\<lparr>fname = ?path, fpos = 1200\<rparr>"
  let ?c = "write_at [] 800 ?E2"
  let ?w2 = "test_world\<lparr>disk := [?path \<mapsto> ?c]\<rparr>"
  let ?fm2 = "store_file ?fm1 ''testfile'' ?f'"
  have fm: "newFileManager ?os ''file-manager-test-dir'' 400 = Inr ?fm"
    by (simp add: newFileManager_def)
  have np: "newPage 400 = Inr ?p1"
    by (simp add: newPage_def make_bytes_def maxAlloc_def)
  have lbs: "length ?bs = 13" by (simp add: length_bytes_of_string)
  have s1: "setBytes ?p1 88 ?bs = (None, ?p1a)"
    using setBytes_ok [of 88 ?bs ?p1] by (simp add: lbs)
  have l1: "length ?E1 = 400"
    by (simp add: length_put_at length_PutUint32 lbs)
  have s2: "setInt ?p1a 105 4096 = (None, ?p1b)"
    using setInt_ok [of 105 ?p1a 4096] by (simp add: l1)
  have l2: "length ?E2 = 400"
    by (simp add: length_put_at length_PutUint32 l1)
  have pos2: "88 + maxLength ?s = (105 :: int32)"
    by (simp add: maxLength_def int32size_def)
  have gi: "getInt ?p1b 105 = Inr 4096"
    using getInt_after_setInt [of 105 ?p1a 4096] by (simp add: s2 l1)
  have gs: "getBytes ?p1b 88 = Inr ?bs"
    using getBytes_setInt_after [of 88 105 ?p1 ?bs 4096] by (simp add: s1 s2 lbs)
  have g: "getFile test_world ?fm (filename ?blk) = Inr (?f, ?w1, ?fm1)"
    by (simp add: getFile_def os_Create_def test_world_def)
  have off: "0 \<le>s blknum ?blk * blocksize ?fm" and pos: "nat (sint (blknum ?blk * blocksize ?fm)) = 800"
    by (simp_all add: word_sle_eq)
  have lim: "file_limit test_world = 2 ^ 44"
    by (simp add: file_limit_def test_world_def)
  have wr: "write_fm test_world ?fm ?blk ?p1b = Inr (?w2, ?fm2)"
    using write_fm_value [OF g _ off, of "[]" ?p1b] by (simp add: pos l2 lim)
  have ne: "?E2 \<noteq> []" using l2 by auto
  have wb: "800 + length ?E2 \<le> length ?c" "take (length ?E2) (drop 800 ?c) = ?E2"
    using written_block [OF ne, of 800 "[]"] by simp_all
  have rd: "read_fm ?w2 ?fm2 ?blk ?p1 = Inr (?p1b, ?w2,
      store_file ?fm2 ''testfile'' ?f')"
    using read_fm_value [of ?fm2 ?blk ?f' ?w2 ?c ?p1] wb
    by (simp add: store_file_simps word_sle_eq l2 file_limit_def test_world_def maxRW_def)
  show ?thesis
    unfolding testFileManager_def fm
    by (simp add: newBlockID_def np setString_def s1 pos2 s2 wr store_file_simps rd gi
          getString_def gs string_of_bytes_of_string assert_def Let_def)
qed

lemma main_passes:
  "main \<lparr>open_dir = None, mkdir_dir = None, reopen_dir = None\<rparr> test_world = None"
  unfolding main_def by (rule testFileManager_passes)

end
